theory Spec2Isabelle
  imports Main "HOL-Library.Word"
begin

section \<open>The mock CSI driver bootstrap (cmd/mock-driver/main.go)\<close>

subsection \<open>Strings\<close>

text \<open>
  A Go string is a sequence of bytes, here a \<open>string\<close> (a list of 8-bit characters).
  The functions of package \<open>strings\<close> that \<open>parseEndpoint\<close> calls are written out.
\<close>

definition lower_byte :: "char \<Rightarrow> char" where
  "lower_byte c =
     (case map_of (zip ''ABCDEFGHIJKLMNOPQRSTUVWXYZ'' ''abcdefghijklmnopqrstuvwxyz'') c of
        None \<Rightarrow> c
      | Some l \<Rightarrow> l)"

text \<open>
  \<open>strings.ToLower\<close>. On a string of ASCII bytes Go lower-cases byte by byte. On any other
  string it decodes UTF-8 and maps every rune with \<open>unicode.ToLower\<close>; the only rune
  outside ASCII whose lower case is an ASCII letter of \<open>unix\<close> or \<open>tcp\<close> is U+0130
  (bytes C4 B0, lower case \<open>i\<close>), and the byte C4 always starts a rune. The model
  lower-cases ASCII bytes and U+0130 and keeps every other byte; Go maps those to bytes
  outside ASCII or to \<open>k\<close> (U+212A), so the two agree on whether the result starts with
  \<open>unix://\<close> or \<open>tcp://\<close>, the only use \<open>parseEndpoint\<close> makes of it.
\<close>

fun ToLower :: "string \<Rightarrow> string" where
  "ToLower [] = []"
| "ToLower [c] = [lower_byte c]"
| "ToLower (c # d # cs) =
     (if c = CHR 0xC4 \<and> d = CHR 0xB0 then CHR ''i'' # ToLower cs
      else lower_byte c # ToLower (d # cs))"

definition HasPrefix :: "string \<Rightarrow> string \<Rightarrow> bool" where
  "HasPrefix s prefix \<longleftrightarrow> length prefix \<le> length s \<and> take (length prefix) s = prefix"

text \<open>\<open>strings.Index\<close>: the position of the first occurrence, \<open>None\<close> for Go's -1.\<close>

fun Index :: "string \<Rightarrow> string \<Rightarrow> nat option" where
  "Index [] sep = (if sep = [] then Some 0 else None)"
| "Index (c # cs) sep =
     (if HasPrefix (c # cs) sep then Some 0 else map_option Suc (Index cs sep))"

text \<open>
  \<open>strings.SplitN\<close> for a count \<open>n \<ge> 0\<close> and a non-empty separator (the call site passes
  \<open>"://"\<close> and 2): at most \<open>n\<close> pieces, the last one the unsplit rest.
\<close>

fun SplitN :: "string \<Rightarrow> string \<Rightarrow> nat \<Rightarrow> string list" where
  "SplitN s sep 0 = []"
| "SplitN s sep (Suc 0) = [s]"
| "SplitN s sep (Suc (Suc n)) =
     (case Index s sep of
        None \<Rightarrow> [s]
      | Some m \<Rightarrow> take m s # SplitN (drop (m + length sep) s) sep (Suc n))"

subsection \<open>Errors\<close>

text \<open>
  Go's \<open>error\<close> values: the errors of the operating system and of the libraries (with
  "file does not exist" apart, which \<open>os.IsNotExist\<close> tests), and the two that this program
  builds with \<open>fmt.Errorf\<close>. \<open>Panic\<close> stands for the run-time panic of an index out of range.
\<close>

datatype error =
    ErrNotExist
  | SysError string
  | InvalidEndpoint string
  | ListenError string error
  | Panic

fun IsNotExist :: "error \<Rightarrow> bool" where
  "IsNotExist ErrNotExist = True"
| "IsNotExist _ = False"

subsection \<open>parseEndpoint\<close>

text \<open>
  The kind and the address of an endpoint string. \<open>s[1]\<close> panics when \<open>SplitN\<close> returns a
  single piece; \<open>parseEndpoint_no_panic\<close> below shows that this never happens.
\<close>

definition parseEndpoint :: "string \<Rightarrow> error + string \<times> string" where
  "parseEndpoint ep =
     (if HasPrefix (ToLower ep) ''unix://'' \<or> HasPrefix (ToLower ep) ''tcp://'' then
        (let s = SplitN ep ''://'' 2 in
         if length s \<le> 1 then Inl Panic
         else if s ! 1 \<noteq> [] then Inr (s ! 0, s ! 1)
         else Inl (InvalidEndpoint ep))
      else Inr (''unix'', ep))"

subsection \<open>Configuration, servers and the calls that leave the program\<close>

text \<open>
  \<open>service.Config\<close> as \<open>main\<close> fills it. The hooks type \<open>service.Hooks\<close> is declared outside
  this file and stays a type parameter \<open>'h\<close>.
\<close>

record 'h Config =
  DisableAttach :: bool
  DriverName :: string
  AttachLimit :: "64 word"
  NodeExpansionRequired :: bool
  EnableTopology :: bool
  DisableControllerExpansion :: bool
  DisableOnlineExpansion :: bool
  PermissiveTargetPath :: bool
  ExecHooks :: "'h option"

text \<open>The command line after \<open>flag.Parse\<close>: one value for each flag that \<open>main\<close> declares.\<close>

record flags =
  disable_attach :: bool
  name :: string
  attach_limit :: "64 word"
  node_expand_required :: bool
  enable_topology :: bool
  disable_controller_expansion :: bool
  disable_online_expansion :: bool
  permissive_target_path :: bool
  hooks_file :: string

text \<open>
  \<open>var config service.Config\<close> is the zero value, so \<open>ExecHooks\<close> is nil; the flags fill every
  other field.
\<close>

definition flag_Parse :: "flags \<Rightarrow> 'h Config" where
  "flag_Parse fl =
     \<lparr>DisableAttach = disable_attach fl, DriverName = name fl, AttachLimit = attach_limit fl,
      NodeExpansionRequired = node_expand_required fl, EnableTopology = enable_topology fl,
      DisableControllerExpansion = disable_controller_expansion fl,
      DisableOnlineExpansion = disable_online_expansion fl,
      PermissiveTargetPath = permissive_target_path fl, ExecHooks = None\<rparr>"

text \<open>\<open>os.Getenv\<close>: the value of the variable, the empty string when it is not set.\<close>

definition Getenv :: "(string \<rightharpoonup> string) \<Rightarrow> string \<Rightarrow> string" where
  "Getenv env key = (case env key of None \<Rightarrow> [] | Some v \<Rightarrow> v)"

datatype role = Identity | Controller | Node

text \<open>\<open>service.New(config)\<close>: the one service instance behind every server.\<close>

datatype 'h service = service_New "'h Config"

text \<open>
  The three constructors of package \<open>driver\<close> with the servers \<open>main\<close> hands them, in the
  order of the struct literals: \<open>CSIDriverServers{Controller, Identity, Node}\<close>,
  \<open>CSIDriverControllerServer{Controller, Identity}\<close>, \<open>CSIDriverNodeServer{Node, Identity}\<close>.
\<close>

datatype 'h driver =
    NewCSIDriver "'h service" "'h service" "'h service"
  | NewCSIDriverController "'h service" "'h service"
  | NewCSIDriverNode "'h service" "'h service"

text \<open>The roles a member serves: the servers its struct literal sets.\<close>

fun roles :: "'h driver \<Rightarrow> role set" where
  "roles (NewCSIDriver c i n) = {Controller, Identity, Node}"
| "roles (NewCSIDriverController c i) = {Controller, Identity}"
| "roles (NewCSIDriverNode n i) = {Node, Identity}"

text \<open>A listener that \<open>net.Listen(proto, addr)\<close> returned, named by its two arguments.\<close>

datatype listener = Listener string string

text \<open>The two closures \<open>listen\<close> returns: \<open>func() {}\<close> and \<open>func() { os.Remove(addr) }\<close>.\<close>

datatype cleanup = NoCleanup | RemoveFile string

datatype signal = SIGHUP | SIGINT | SIGQUIT | SIGTERM | SIGUSR1 | SIGUSR2

text \<open>The log lines of the program, with the arguments of their format strings.\<close>

datatype logline =
    FailedToLoadHooks string error
  | HooksLoaded string
  | UnableToListen string error
  | UnableToStart string error
  | Message string

text \<open>
  Every call that leaves the program is recorded with its arguments and its result.
  \<open>EvCleanup\<close> marks the moment a deferred cleanup closure is entered.
\<close>

datatype 'h event =
    EvOpen string "error option"
  | EvReadAll string "error + string"
  | EvClose string
  | EvRemove string "error option"
  | EvListen string string "error option"
  | EvNewService "'h Config"
  | EvNewDriver "'h driver"
  | EvSetDefaultCreds "'h driver"
  | EvStart "'h driver" listener "error option"
  | EvStop "'h driver"
  | EvNotify "signal list"
  | EvSignal signal
  | EvCleanup cleanup
  | EvErrorf logline
  | EvExitf logline
  | EvInfo logline

text \<open>
  The operating system and the libraries are a parameter: any behaviour of theirs, over any
  state \<open>'w\<close> of the world. A result \<open>None\<close> of type \<open>error option\<close> is Go's nil error.
\<close>

record ('h, 'w) platform =
  os_Open :: "string \<Rightarrow> 'w \<Rightarrow> error option \<times> 'w"
  ioutil_ReadAll :: "string \<Rightarrow> 'w \<Rightarrow> (error + string) \<times> 'w"
  file_Close :: "string \<Rightarrow> 'w \<Rightarrow> 'w"
  yaml_UnmarshalStrict :: "string \<Rightarrow> error + 'h"
  os_Remove :: "string \<Rightarrow> 'w \<Rightarrow> error option \<times> 'w"
  net_Listen :: "string \<Rightarrow> string \<Rightarrow> 'w \<Rightarrow> error option \<times> 'w"
  driver_Start :: "'h driver \<Rightarrow> listener \<Rightarrow> 'w \<Rightarrow> error option \<times> 'w"
  driver_Stop :: "'h driver \<Rightarrow> 'w \<Rightarrow> 'w"

record ('h, 'w) state =
  trace :: "'h event list"
  world :: 'w

definition emit :: "'h event \<Rightarrow> ('h, 'w) state \<Rightarrow> ('h, 'w) state" where
  "emit e \<sigma> = \<sigma>\<lparr>trace := trace \<sigma> @ [e]\<rparr>"

definition call_Open ::
  "('h, 'w) platform \<Rightarrow> string \<Rightarrow> ('h, 'w) state \<Rightarrow> error option \<times> ('h, 'w) state" where
  "call_Open P file \<sigma> =
     (let (r, w) = os_Open P file (world \<sigma>)
      in (r, \<lparr>trace = trace \<sigma> @ [EvOpen file r], world = w\<rparr>))"

definition call_ReadAll ::
  "('h, 'w) platform \<Rightarrow> string \<Rightarrow> ('h, 'w) state \<Rightarrow> (error + string) \<times> ('h, 'w) state" where
  "call_ReadAll P file \<sigma> =
     (let (r, w) = ioutil_ReadAll P file (world \<sigma>)
      in (r, \<lparr>trace = trace \<sigma> @ [EvReadAll file r], world = w\<rparr>))"

definition call_Close :: "('h, 'w) platform \<Rightarrow> string \<Rightarrow> ('h, 'w) state \<Rightarrow> ('h, 'w) state" where
  "call_Close P file \<sigma> =
     \<lparr>trace = trace \<sigma> @ [EvClose file], world = file_Close P file (world \<sigma>)\<rparr>"

definition call_Remove ::
  "('h, 'w) platform \<Rightarrow> string \<Rightarrow> ('h, 'w) state \<Rightarrow> error option \<times> ('h, 'w) state" where
  "call_Remove P path \<sigma> =
     (let (r, w) = os_Remove P path (world \<sigma>)
      in (r, \<lparr>trace = trace \<sigma> @ [EvRemove path r], world = w\<rparr>))"

definition call_Listen ::
  "('h, 'w) platform \<Rightarrow> string \<Rightarrow> string \<Rightarrow> ('h, 'w) state \<Rightarrow> error option \<times> ('h, 'w) state" where
  "call_Listen P proto addr \<sigma> =
     (let (r, w) = net_Listen P proto addr (world \<sigma>)
      in (r, \<lparr>trace = trace \<sigma> @ [EvListen proto addr r], world = w\<rparr>))"

definition call_Start ::
  "('h, 'w) platform \<Rightarrow> 'h driver \<Rightarrow> listener \<Rightarrow> ('h, 'w) state \<Rightarrow>
     error option \<times> ('h, 'w) state" where
  "call_Start P d l \<sigma> =
     (let (r, w) = driver_Start P d l (world \<sigma>)
      in (r, \<lparr>trace = trace \<sigma> @ [EvStart d l r], world = w\<rparr>))"

definition call_Stop :: "('h, 'w) platform \<Rightarrow> 'h driver \<Rightarrow> ('h, 'w) state \<Rightarrow> ('h, 'w) state" where
  "call_Stop P d \<sigma> = \<lparr>trace = trace \<sigma> @ [EvStop d], world = driver_Stop P d (world \<sigma>)\<rparr>"

subsection \<open>listen\<close>

text \<open>
  The filesystem branch returns early when the removal fails with anything but "file does
  not exist"; otherwise it goes on to \<open>net.Listen\<close> with the address it has prefixed by
  \<open>/\<close> and with the closure that removes that path.
\<close>

definition listen ::
  "('h, 'w) platform \<Rightarrow> string \<Rightarrow> ('h, 'w) state \<Rightarrow>
     (error + listener \<times> cleanup) \<times> ('h, 'w) state" where
  "listen P endpoint \<sigma> =
     (case parseEndpoint endpoint of
        Inl err \<Rightarrow> (Inl err, \<sigma>)
      | Inr (proto, addr) \<Rightarrow>
          (case (if proto = ''unix'' then
                   (let addr' = ''/'' @ addr;
                        (r, \<sigma>1) = call_Remove P addr' \<sigma>
                    in if r \<noteq> None \<and> \<not> IsNotExist (the r)
                       then Inl (ListenError addr' (the r), \<sigma>1)
                       else Inr (addr', RemoveFile addr', \<sigma>1))
                 else Inr (addr, NoCleanup, \<sigma>)) of
             Inl (err, \<sigma>1) \<Rightarrow> (Inl err, \<sigma>1)
           | Inr (addr, cleanup, \<sigma>1) \<Rightarrow>
               (let (r, \<sigma>2) = call_Listen P proto addr \<sigma>1
                in case r of
                     Some err \<Rightarrow> (Inl err, \<sigma>2)
                   | None \<Rightarrow> (Inr (Listener proto addr, cleanup), \<sigma>2))))"

subsection \<open>parseHooksFile\<close>

text \<open>\<open>defer fr.Close()\<close> runs on every return after the file was opened.\<close>

definition parseHooksFile ::
  "('h, 'w) platform \<Rightarrow> string \<Rightarrow> ('h, 'w) state \<Rightarrow> (error + 'h) \<times> ('h, 'w) state" where
  "parseHooksFile P file \<sigma> =
     (case call_Open P file \<sigma> of
        (Some err, \<sigma>1) \<Rightarrow> (Inl err, \<sigma>1)
      | (None, \<sigma>1) \<Rightarrow>
          (case call_ReadAll P file \<sigma>1 of
             (Inl err, \<sigma>2) \<Rightarrow> (Inl err, call_Close P file \<sigma>2)
           | (Inr bytes, \<sigma>2) \<Rightarrow>
               (case yaml_UnmarshalStrict P bytes of
                  Inl err \<Rightarrow> (Inl err, call_Close P file \<sigma>2)
                | Inr hooks \<Rightarrow>
                    (Inr hooks, call_Close P file (emit (EvInfo (HooksLoaded file)) \<sigma>2)))))"

subsection \<open>main\<close>

text \<open>
  The process ends with an exit status, or blocks for ever on the signal channel.
  \<open>klog.Exitf\<close> logs and calls \<open>os.Exit(1)\<close>, which runs no deferred call; returning from
  \<open>main\<close> runs the deferred calls, last one first, and exits with status 0.
\<close>

datatype outcome = Exit nat | Blocked

definition klog_Exitf :: "logline \<Rightarrow> ('h, 'w) state \<Rightarrow> outcome \<times> ('h, 'w) state" where
  "klog_Exitf msg \<sigma> = (Exit 1, emit (EvExitf msg) \<sigma>)"

fun run_cleanup :: "('h, 'w) platform \<Rightarrow> cleanup \<Rightarrow> ('h, 'w) state \<Rightarrow> ('h, 'w) state" where
  "run_cleanup P NoCleanup \<sigma> = emit (EvCleanup NoCleanup) \<sigma>"
| "run_cleanup P (RemoveFile addr) \<sigma> =
     snd (call_Remove P addr (emit (EvCleanup (RemoveFile addr)) \<sigma>))"

text \<open>The stack of deferred calls, its top first.\<close>

fun run_deferred ::
  "('h, 'w) platform \<Rightarrow> cleanup list \<Rightarrow> ('h, 'w) state \<Rightarrow> ('h, 'w) state" where
  "run_deferred P [] \<sigma> = \<sigma>"
| "run_deferred P (c # cs) \<sigma> = run_deferred P cs (run_cleanup P c \<sigma>)"

definition sigs :: "signal list" where
  "sigs = [SIGTERM, SIGHUP, SIGINT, SIGQUIT]"

text \<open>
  \<open>signal.Notify(sigc, sigs...)\<close> and \<open><-sigc\<close>. \<open>arrivals\<close> are the signals sent to the
  process while it waits, in order; the channel delivers the first one that was registered,
  and the receive never returns when there is none.
\<close>

definition wait_signal ::
  "signal list \<Rightarrow> ('h, 'w) state \<Rightarrow> signal option \<times> ('h, 'w) state" where
  "wait_signal arrivals \<sigma> =
     (let \<sigma>1 = emit (EvNotify sigs) \<sigma>
      in case find (\<lambda>sg. sg \<in> set sigs) arrivals of
           None \<Rightarrow> (None, \<sigma>1)
         | Some sg \<Rightarrow> (Some sg, emit (EvSignal sg) \<sigma>1))"

definition set_creds ::
  "(string \<rightharpoonup> string) \<Rightarrow> 'h driver list \<Rightarrow> ('h, 'w) state \<Rightarrow> ('h, 'w) state" where
  "set_creds env ds \<sigma> =
     (let setCreds = Getenv env ''CSI_ENABLE_CREDS''
      in if length setCreds > 0 \<and> setCreds = ''true''
         then fold (\<lambda>d. emit (EvSetDefaultCreds d)) ds \<sigma> else \<sigma>)"

text \<open>The branch \<open>endpoint == controllerEndpoint\<close>.\<close>

definition main_combined ::
  "('h, 'w) platform \<Rightarrow> (string \<rightharpoonup> string) \<Rightarrow> signal list \<Rightarrow> 'h service \<Rightarrow> string \<Rightarrow>
     ('h, 'w) state \<Rightarrow> outcome \<times> ('h, 'w) state" where
  "main_combined P env arrivals s endpoint \<sigma> =
     (let d = NewCSIDriver s s s;
          \<sigma>1 = set_creds env [d] (emit (EvNewDriver d) \<sigma>)
      in case listen P endpoint \<sigma>1 of
           (Inl err, \<sigma>2) \<Rightarrow> klog_Exitf (UnableToListen endpoint err) \<sigma>2
         | (Inr (l, cleanup), \<sigma>2) \<Rightarrow>
             (case call_Start P d l \<sigma>2 of
                (Some err, \<sigma>3) \<Rightarrow> klog_Exitf (UnableToStart ''mock CSI server'' err) \<sigma>3
              | (None, \<sigma>3) \<Rightarrow>
                  (case wait_signal arrivals (emit (EvInfo (Message ''mock driver started'')) \<sigma>3) of
                     (None, \<sigma>4) \<Rightarrow> (Blocked, \<sigma>4)
                   | (Some sg, \<sigma>4) \<Rightarrow>
                       (Exit 0,
                        run_deferred P [cleanup]
                          (emit (EvInfo (Message ''mock driver stopped''))
                             (call_Stop P d \<sigma>4))))))"

text \<open>
  The other branch: the controller server listens on \<open>controllerEndpoint\<close> first, then the
  node server on \<open>endpoint\<close>.
\<close>

definition main_split ::
  "('h, 'w) platform \<Rightarrow> (string \<rightharpoonup> string) \<Rightarrow> signal list \<Rightarrow> 'h service \<Rightarrow> string \<Rightarrow>
     string \<Rightarrow> ('h, 'w) state \<Rightarrow> outcome \<times> ('h, 'w) state" where
  "main_split P env arrivals s endpoint controllerEndpoint \<sigma> =
     (let dc = NewCSIDriverController s s;
          dn = NewCSIDriverNode s s;
          \<sigma>1 = set_creds env [dc, dn] (emit (EvNewDriver dn) (emit (EvNewDriver dc) \<sigma>))
      in case listen P controllerEndpoint \<sigma>1 of
           (Inl err, \<sigma>2) \<Rightarrow> klog_Exitf (UnableToListen controllerEndpoint err) \<sigma>2
         | (Inr (l, cleanupController), \<sigma>2) \<Rightarrow>
             (case call_Start P dc l \<sigma>2 of
                (Some err, \<sigma>3) \<Rightarrow>
                  klog_Exitf (UnableToStart ''mock CSI controller server'' err) \<sigma>3
              | (None, \<sigma>3) \<Rightarrow>
                  (case listen P endpoint
                          (emit (EvInfo (Message ''mock controller driver started'')) \<sigma>3) of
                     (Inl err, \<sigma>4) \<Rightarrow> klog_Exitf (UnableToListen endpoint err) \<sigma>4
                   | (Inr (l', cleanupNode), \<sigma>4) \<Rightarrow>
                       (case call_Start P dn l' \<sigma>4 of
                          (Some err, \<sigma>5) \<Rightarrow>
                            klog_Exitf (UnableToStart ''mock CSI node server'' err) \<sigma>5
                        | (None, \<sigma>5) \<Rightarrow>
                            (case wait_signal arrivals
                                    (emit (EvInfo (Message ''mock node driver started'')) \<sigma>5) of
                               (None, \<sigma>6) \<Rightarrow> (Blocked, \<sigma>6)
                             | (Some sg, \<sigma>6) \<Rightarrow>
                                 (Exit 0,
                                  run_deferred P [cleanupNode, cleanupController]
                                    (emit (EvInfo (Message ''mock drivers stopped''))
                                       (call_Stop P dn (call_Stop P dc \<sigma>6)))))))))"

text \<open>The hooks file, when the option is set: a failure is logged and nothing else.\<close>

definition load_hooks ::
  "('h, 'w) platform \<Rightarrow> string \<Rightarrow> 'h Config \<Rightarrow> ('h, 'w) state \<Rightarrow> 'h Config \<times> ('h, 'w) state" where
  "load_hooks P hooksFile config \<sigma> =
     (if hooksFile \<noteq> [] then
        (case parseHooksFile P hooksFile \<sigma> of
           (Inr execHooks, \<sigma>1) \<Rightarrow> (config\<lparr>ExecHooks := Some execHooks\<rparr>, \<sigma>1)
         | (Inl err, \<sigma>1) \<Rightarrow> (config, emit (EvErrorf (FailedToLoadHooks hooksFile err)) \<sigma>1))
      else (config, \<sigma>))"

definition main ::
  "('h, 'w) platform \<Rightarrow> flags \<Rightarrow> (string \<rightharpoonup> string) \<Rightarrow> signal list \<Rightarrow> ('h, 'w) state \<Rightarrow>
     outcome \<times> ('h, 'w) state" where
  "main P fl env arrivals \<sigma> =
     (let endpoint = Getenv env ''CSI_ENDPOINT'';
          controllerEndpoint = Getenv env ''CSI_CONTROLLER_ENDPOINT'';
          controllerEndpoint =
            (if length controllerEndpoint = 0 then endpoint else controllerEndpoint);
          (config, \<sigma>1) = load_hooks P (hooks_file fl) (flag_Parse fl) \<sigma>;
          s = service_New config;
          \<sigma>2 = emit (EvNewService config) \<sigma>1
      in if endpoint = controllerEndpoint then main_combined P env arrivals s endpoint \<sigma>2
         else main_split P env arrivals s endpoint controllerEndpoint \<sigma>2)"

subsection \<open>Reading a trace\<close>

text \<open>
  The members constructed, the addresses bound (successful \<open>net.Listen\<close> calls), the members
  started without error with their listeners, the members stopped, the cleanup closures
  entered, the configurations handed to \<open>service.New\<close> and the signals received, each in the
  order of the trace.
\<close>

fun built :: "'h event list \<Rightarrow> 'h driver list" where
  "built [] = []"
| "built (EvNewDriver d # tr) = d # built tr"
| "built (_ # tr) = built tr"

fun bound :: "'h event list \<Rightarrow> (string \<times> string) list" where
  "bound [] = []"
| "bound (EvListen proto addr None # tr) = (proto, addr) # bound tr"
| "bound (_ # tr) = bound tr"

fun started :: "'h event list \<Rightarrow> ('h driver \<times> listener) list" where
  "started [] = []"
| "started (EvStart d l None # tr) = (d, l) # started tr"
| "started (_ # tr) = started tr"

fun stopped :: "'h event list \<Rightarrow> 'h driver list" where
  "stopped [] = []"
| "stopped (EvStop d # tr) = d # stopped tr"
| "stopped (_ # tr) = stopped tr"

fun cleanups :: "'h event list \<Rightarrow> cleanup list" where
  "cleanups [] = []"
| "cleanups (EvCleanup c # tr) = c # cleanups tr"
| "cleanups (_ # tr) = cleanups tr"

fun services :: "'h event list \<Rightarrow> 'h Config list" where
  "services [] = []"
| "services (EvNewService c # tr) = c # services tr"
| "services (_ # tr) = services tr"

fun received :: "'h event list \<Rightarrow> signal list" where
  "received [] = []"
| "received (EvSignal sg # tr) = sg # received tr"
| "received (_ # tr) = received tr"

text \<open>The trace up to the receive on the signal channel, and from it on.\<close>

fun is_signal :: "'h event \<Rightarrow> bool" where
  "is_signal (EvSignal sg) = True"
| "is_signal _ = False"

definition before_signal :: "'h event list \<Rightarrow> 'h event list" where
  "before_signal tr = takeWhile (\<lambda>e. \<not> is_signal e) tr"

definition after_signal :: "'h event list \<Rightarrow> 'h event list" where
  "after_signal tr = dropWhile (\<lambda>e. \<not> is_signal e) tr"

text \<open>
  The network and address that \<open>listen\<close> hands to \<open>net.Listen\<close> for an endpoint string
  (lemma \<open>listen_result\<close> below): a listener is bound to an endpoint when it is bound there.
\<close>

definition listen_address :: "string \<Rightarrow> error + string \<times> string" where
  "listen_address ep =
     (case parseEndpoint ep of
        Inl err \<Rightarrow> Inl err
      | Inr (proto, addr) \<Rightarrow> Inr (proto, if proto = ''unix'' then ''/'' @ addr else addr))"

text \<open>The calls of \<open>listen\<close> that bind nothing: removals and failed \<open>net.Listen\<close> calls.\<close>

fun is_attempt :: "'h event \<Rightarrow> bool" where
  "is_attempt (EvRemove path r) = True"
| "is_attempt (EvListen proto addr (Some err)) = True"
| "is_attempt _ = False"

text \<open>The events of loading the hooks file.\<close>

fun is_hook_event :: "'h event \<Rightarrow> bool" where
  "is_hook_event (EvOpen file r) = True"
| "is_hook_event (EvReadAll file r) = True"
| "is_hook_event (EvClose file) = True"
| "is_hook_event (EvInfo (HooksLoaded file)) = True"
| "is_hook_event (EvErrorf msg) = True"
| "is_hook_event _ = False"

text \<open>
  The events of \<open>set_creds\<close>, and the closure \<open>listen\<close> returns with a listener on
  \<open>(proto, addr)\<close>.
\<close>

definition creds_events :: "(string \<rightharpoonup> string) \<Rightarrow> 'h driver list \<Rightarrow> 'h event list" where
  "creds_events env ds =
     (if Getenv env ''CSI_ENABLE_CREDS'' = ''true'' then map EvSetDefaultCreds ds else [])"

definition cleanup_of :: "string \<Rightarrow> string \<Rightarrow> cleanup" where
  "cleanup_of proto addr = (if proto = ''unix'' then RemoveFile addr else NoCleanup)"

text \<open>The controller endpoint after its default: the common endpoint when the variable is empty.\<close>

definition controller_endpoint :: "(string \<rightharpoonup> string) \<Rightarrow> string" where
  "controller_endpoint env =
     (if Getenv env ''CSI_CONTROLLER_ENDPOINT'' = [] then Getenv env ''CSI_ENDPOINT''
      else Getenv env ''CSI_CONTROLLER_ENDPOINT'')"

text \<open>
  The file that a path string names, as far as slashes go: pathname resolution reads
  successive slashes as one, on Linux a leading pair too. \<open>socket_paths\<close> are the files of
  the filesystem sockets bound in a trace.
\<close>

fun filesystem_path :: "string \<Rightarrow> string" where
  "filesystem_path (c # d # cs) =
     (if c = CHR ''/'' \<and> d = CHR ''/'' then filesystem_path (d # cs)
      else c # filesystem_path (d # cs))"
| "filesystem_path cs = cs"

definition socket_paths :: "'h event list \<Rightarrow> string list" where
  "socket_paths tr =
     map (\<lambda>(proto, addr). filesystem_path addr)
       (filter (\<lambda>(proto, addr). proto = ''unix'') (bound tr))"

subsection \<open>A small world to run the program in\<close>

text \<open>
  A file system as the list of existing files, the files whose removal is refused, and the
  readable documents with their contents. A path names the file \<open>filesystem_path\<close> gives.
  Binding a filesystem socket creates its file and fails when the file exists; a hooks
  document parses when it starts with \<open>globals:\<close>.
\<close>

record sim =
  files :: "string list"
  locked :: "string list"
  documents :: "(string \<times> string) list"

definition sim_platform :: "(string, sim) platform" where
  "sim_platform =
     \<lparr>os_Open = (\<lambda>file w.
        (if map_of (documents w) file = None then Some ErrNotExist else None, w)),
      ioutil_ReadAll = (\<lambda>file w.
        (case map_of (documents w) file of
           None \<Rightarrow> Inl (SysError ''bad file descriptor'')
         | Some b \<Rightarrow> Inr b, w)),
      file_Close = (\<lambda>file w. w),
      yaml_UnmarshalStrict = (\<lambda>b.
        if HasPrefix b ''globals:'' then Inr b else Inl (SysError ''yaml: unmarshal errors'')),
      os_Remove = (\<lambda>path w.
        if filesystem_path path \<in> set (locked w)
        then (Some (SysError ''operation not permitted''), w)
        else if filesystem_path path \<in> set (files w)
        then (None, w\<lparr>files := removeAll (filesystem_path path) (files w)\<rparr>)
        else (Some ErrNotExist, w)),
      net_Listen = (\<lambda>proto addr w.
        if proto = ''unix'' then
          (if filesystem_path addr \<in> set (files w)
           then (Some (SysError ''address already in use''), w)
           else (None, w\<lparr>files := filesystem_path addr # files w\<rparr>))
        else if proto = ''tcp'' then (None, w)
        else (Some (SysError ''unknown network''), w)),
      driver_Start = (\<lambda>d l w. (None, w)),
      driver_Stop = (\<lambda>d w. w)\<rparr>"

definition empty_world :: sim where
  "empty_world = \<lparr>files = [], locked = [], documents = []\<rparr>"

text \<open>The flags at their declared defaults; the default driver name \<open>service.Name\<close> is a parameter.\<close>

definition flag_defaults :: "string \<Rightarrow> flags" where
  "flag_defaults service_Name =
     \<lparr>disable_attach = False, name = service_Name, attach_limit = 2,
      node_expand_required = False, enable_topology = False,
      disable_controller_expansion = False, disable_online_expansion = False,
      permissive_target_path = False, hooks_file = []\<rparr>"

text \<open>
  The environments of the scenarios, one with both endpoints set to the same string and one
  whose node endpoint is invalid.
\<close>

definition scenario_combined :: "string \<rightharpoonup> string" where
  "scenario_combined = [''CSI_ENDPOINT'' \<mapsto> ''unix:///tmp/a.sock'']"

definition scenario_same :: "string \<rightharpoonup> string" where
  "scenario_same =
     [''CSI_ENDPOINT'' \<mapsto> ''tcp://127.0.0.1:9000'',
      ''CSI_CONTROLLER_ENDPOINT'' \<mapsto> ''tcp://127.0.0.1:9000'',
      ''CSI_ENABLE_CREDS'' \<mapsto> ''true'']"

definition scenario_split :: "string \<rightharpoonup> string" where
  "scenario_split =
     [''CSI_ENDPOINT'' \<mapsto> ''tcp://127.0.0.1:9000'',
      ''CSI_CONTROLLER_ENDPOINT'' \<mapsto> ''tcp://127.0.0.1:9001'']"

definition scenario_failure :: "string \<rightharpoonup> string" where
  "scenario_failure =
     [''CSI_ENDPOINT'' \<mapsto> ''tcp://'',
      ''CSI_CONTROLLER_ENDPOINT'' \<mapsto> ''unix://tmp/c.sock'']"

text \<open>Flags that name a hooks file, and a world where that file is not a hooks document.\<close>

definition hooks_flags :: flags where
  "hooks_flags = (flag_defaults ''mock'')\<lparr>hooks_file := ''/etc/hooks.yaml''\<rparr>"

definition hooks_world :: sim where
  "hooks_world = \<lparr>files = [], locked = [], documents = [(''/etc/hooks.yaml'', ''{ not a hooks document'')]\<rparr>"

text \<open>A process starts with nothing done yet.\<close>

definition run ::
  "('h, 'w) platform \<Rightarrow> flags \<Rightarrow> (string \<rightharpoonup> string) \<Rightarrow> signal list \<Rightarrow> 'w \<Rightarrow>
     outcome \<times> ('h, 'w) state" where
  "run P fl env arrivals w = main P fl env arrivals \<lparr>trace = [], world = w\<rparr>"

section \<open>Endpoint resolution\<close>

lemma lower_byte_colon: "lower_byte c = CHR '':'' \<longleftrightarrow> c = CHR '':''"
  by (auto simp: lower_byte_def split: if_splits)
lemma lower_byte_slash: "lower_byte c = CHR ''/'' \<longleftrightarrow> c = CHR ''/''"
  by (auto simp: lower_byte_def split: if_splits)

lemma lower_byte_sep [simp]:
  "lower_byte (CHR '':'') = CHR '':''" "lower_byte (CHR ''/'') = CHR ''/''"
  by (simp_all add: lower_byte_def)

lemma Index_first_colon:
  "CHR '':'' \<notin> set p \<Longrightarrow> Index (p @ ''://'' @ r) ''://'' = Some (length p)"
  by (induction p) (auto simp: HasPrefix_def)

lemma ToLower_keeps_colon: "CHR '':'' \<in> set s \<Longrightarrow> CHR '':'' \<in> set (ToLower s)"
  by (induction s rule: ToLower.induct) (auto simp: lower_byte_colon)

lemma ToLower_append_colon:
  "ToLower (p @ CHR '':'' # s) = ToLower p @ ToLower (CHR '':'' # s)"
proof (induction p rule: ToLower.induct)
  case 1
  show ?case by simp
next
  case (2 c)
  show ?case by (cases s) simp_all
next
  case (3 c d cs)
  then show ?case by simp
qed

lemma ToLower_separator: "ToLower (''://'' @ r) = ''://'' @ ToLower r"
  by (cases r) (simp_all add: lower_byte_def)

lemma ToLower_scheme:
  "ToLower (p @ ''://'' @ r) = ToLower p @ ''://'' @ ToLower r"
  using ToLower_append_colon [of p "''//'' @ r"] ToLower_separator [of r] by simp

lemma SplitN_scheme:
  assumes "CHR '':'' \<notin> set p"
  shows "SplitN (p @ ''://'' @ r) ''://'' 2 = [p, r]"
  using Index_first_colon [OF assms, of r] by (simp add: numeral_2_eq_2)

lemma parseEndpoint_scheme:
  assumes "ToLower p = ''unix'' \<or> ToLower p = ''tcp''"
  shows "parseEndpoint (p @ ''://'' @ r) =
           (if r \<noteq> [] then Inr (p, r) else Inl (InvalidEndpoint (p @ ''://'' @ r)))"
proof -
  have nc: "CHR '':'' \<notin> set p"
    using assms ToLower_keeps_colon [of p] by auto
  have pre: "HasPrefix (ToLower (p @ ''://'' @ r)) ''unix://'' \<or>
             HasPrefix (ToLower (p @ ''://'' @ r)) ''tcp://''"
    unfolding ToLower_scheme HasPrefix_def using assms by auto
  show ?thesis
    unfolding parseEndpoint_def using pre SplitN_scheme [OF nc, of r] by simp
qed

lemma ToLower_colon_split:
  "ToLower s = a @ CHR '':'' # b \<Longrightarrow>
     \<exists>p q. s = p @ CHR '':'' # q \<and> ToLower p = a \<and> ToLower (CHR '':'' # q) = CHR '':'' # b"
proof (induction s arbitrary: a rule: ToLower.induct)
  case 1
  then show ?case by simp
next
  case (2 c)
  then have "a = []" "b = []" "c = CHR '':''"
    by (auto simp: Cons_eq_append_conv append_eq_Cons_conv lower_byte_colon)
  then have "[c] = [] @ CHR '':'' # [] \<and> ToLower [] = a \<and>
      ToLower (CHR '':'' # []) = CHR '':'' # b" by (simp add: lower_byte_def)
  then show ?case by blast
next
  case (3 c d cs)
  show ?case
  proof (cases "c = CHR 0xC4 \<and> d = CHR 0xB0")
    case True
    with 3(3) obtain a' where a: "a = CHR ''i'' # a'" and t: "ToLower cs = a' @ CHR '':'' # b"
      by (cases a) auto
    from 3(1) [OF True t] obtain p q where
      "cs = p @ CHR '':'' # q" "ToLower p = a'" "ToLower (CHR '':'' # q) = CHR '':'' # b"
      by blast
    with True a have "c # d # cs = (c # d # p) @ CHR '':'' # q \<and> ToLower (c # d # p) = a \<and>
        ToLower (CHR '':'' # q) = CHR '':'' # b" by simp
    then show ?thesis by blast
  next
    case False
    then have eq: "lower_byte c # ToLower (d # cs) = a @ CHR '':'' # b"
      using 3(3) by (auto split: if_splits)
    show ?thesis
    proof (cases a)
      case Nil
      with eq have "c = CHR '':''" "ToLower (d # cs) = b"
        by (auto simp: lower_byte_colon)
      then have "c # d # cs = [] @ CHR '':'' # (d # cs) \<and> ToLower [] = a \<and>
          ToLower (CHR '':'' # d # cs) = CHR '':'' # b"
        using Nil by (simp add: lower_byte_def)
      then show ?thesis by blast
    next
      case (Cons x a')
      with eq have x: "x = lower_byte c" and t: "ToLower (d # cs) = a' @ CHR '':'' # b"
        by auto
      from 3(2) [OF False t] obtain p q where
        pq: "d # cs = p @ CHR '':'' # q" "ToLower p = a'" "ToLower (CHR '':'' # q) = CHR '':'' # b"
        by blast
      have "ToLower (c # p) = lower_byte c # ToLower p"
      proof (cases p)
        case Nil
        then show ?thesis by simp
      next
        case (Cons e p')
        with pq(1) have "e = d" by simp
        with Cons False show ?thesis by auto
      qed
      with pq Cons x have "c # d # cs = (c # p) @ CHR '':'' # q \<and> ToLower (c # p) = a \<and>
          ToLower (CHR '':'' # q) = CHR '':'' # b" by simp
      then show ?thesis by blast
    qed
  qed
qed

lemma ToLower_slash_head:
  "ToLower q = CHR ''/'' # t \<Longrightarrow> \<exists>q'. q = CHR ''/'' # q' \<and> ToLower q' = t"
  by (induction q rule: ToLower.induct) (auto simp: lower_byte_slash split: if_splits)

lemma recognized_prefix_shape:
  assumes "HasPrefix (ToLower ep) ''unix://'' \<or> HasPrefix (ToLower ep) ''tcp://''"
  shows "\<exists>p r. ep = p @ ''://'' @ r \<and> (ToLower p = ''unix'' \<or> ToLower p = ''tcp'')"
proof -
  from assms obtain a t where a: "a = ''unix'' \<or> a = ''tcp''"
    and low: "ToLower ep = a @ CHR '':'' # ''//'' @ t"
    unfolding HasPrefix_def
    by (metis append_take_drop_id append.assoc append_Cons append_Nil)
  from ToLower_colon_split [OF low] obtain p q where
    pq: "ep = p @ CHR '':'' # q" "ToLower p = a" "ToLower (CHR '':'' # q) = CHR '':'' # ''//'' @ t"
    by blast
  from pq(3) have "ToLower q = ''//'' @ t"
    by (cases q) (auto split: if_splits)
  then obtain q1 where q1: "q = CHR ''/'' # q1" "ToLower q1 = CHR ''/'' # t"
    using ToLower_slash_head [of q "CHR ''/'' # t"] by auto
  then obtain q2 where "q1 = CHR ''/'' # q2"
    using ToLower_slash_head [of q1 t] by auto
  with pq q1 a show ?thesis by auto
qed

lemma parseEndpoint_no_panic: "parseEndpoint ep \<noteq> Inl Panic"
proof (cases "HasPrefix (ToLower ep) ''unix://'' \<or> HasPrefix (ToLower ep) ''tcp://''")
  case True
  from recognized_prefix_shape [OF True] obtain p r where
    "ep = p @ ''://'' @ r" "ToLower p = ''unix'' \<or> ToLower p = ''tcp''" by blast
  then show ?thesis using parseEndpoint_scheme [of p r] by auto
next
  case False
  then show ?thesis by (simp add: parseEndpoint_def)
qed

text \<open>
  Claim C3. An endpoint whose prefix matches \<open>unix://\<close> or \<open>tcp://\<close> without regard to case
  should resolve to the transport kind of that prefix. The code returns the prefix as it was
  written: at \<open>UNIX://tmp/a.sock\<close> the kind is \<open>UNIX\<close>, which \<open>listen\<close> does not take for a
  filesystem socket (no \<open>/\<close> is prefixed, nothing is removed) and hands to \<open>net.Listen\<close> as
  the network; the lower-case spelling of the same endpoint gives \<open>unix\<close> and \<open>/tmp/a.sock\<close>.
  For every recognized prefix \<open>parseEndpoint_scheme\<close> gives the result: the prefix as written
  and the remainder.
\<close>

theorem parseEndpoint_upper_case_kind:
  "parseEndpoint ''UNIX://tmp/a.sock'' = Inr (''UNIX'', ''tmp/a.sock'') \<and>
   listen_address ''UNIX://tmp/a.sock'' = Inr (''UNIX'', ''tmp/a.sock'') \<and>
   parseEndpoint ''unix://tmp/a.sock'' = Inr (''unix'', ''tmp/a.sock'') \<and>
   listen_address ''unix://tmp/a.sock'' = Inr (''unix'', ''/tmp/a.sock'')"
  by (simp add: listen_address_def parseEndpoint_def HasPrefix_def lower_byte_def numeral_2_eq_2)

text \<open>
  Claim C4. An endpoint that is a recognized prefix and nothing more (a scheme \<open>p\<close> that
  lower-cases to \<open>unix\<close> or \<open>tcp\<close>, then \<open>://\<close>, then the end of the string) fails to
  resolve, with the invalid-endpoint error that carries the original string. By
  \<open>recognized_prefix_shape\<close> every endpoint with a recognized prefix is \<open>p @ ''://'' @ r\<close> for
  such a \<open>p\<close>, so these are all the endpoints with an empty remainder.
\<close>

theorem parseEndpoint_empty_remainder:
  assumes "ToLower p = ''unix'' \<or> ToLower p = ''tcp''"
  shows "parseEndpoint (p @ ''://'') = Inl (InvalidEndpoint (p @ ''://''))"
  using parseEndpoint_scheme [OF assms, of "[]"] by simp

theorem parseEndpoint_empty_remainder_witness:
  "ToLower ''Tcp'' = ''tcp'' \<and> parseEndpoint ''Tcp://'' = Inl (InvalidEndpoint ''Tcp://'')"
proof -
  have h: "ToLower ''Tcp'' = ''tcp''" by (simp add: lower_byte_def)
  then have "ToLower ''Tcp'' = ''unix'' \<or> ToLower ''Tcp'' = ''tcp''" by simp
  from parseEndpoint_empty_remainder [OF this] h show ?thesis by simp
qed

text \<open>
  Claim C5. An endpoint whose lower-cased form starts with neither \<open>unix://\<close> nor \<open>tcp://\<close>
  resolves to the kind \<open>unix\<close> (a filesystem socket) with the whole string, unchanged, as
  the address.
\<close>

theorem parseEndpoint_raw_path:
  assumes "\<not> HasPrefix (ToLower ep) ''unix://''" and "\<not> HasPrefix (ToLower ep) ''tcp://''"
  shows "parseEndpoint ep = Inr (''unix'', ep)"
  using assms by (simp add: parseEndpoint_def)

theorem parseEndpoint_raw_path_witness:
  "\<not> HasPrefix (ToLower ''/var/run/csi.sock'') ''unix://'' \<and>
   \<not> HasPrefix (ToLower ''/var/run/csi.sock'') ''tcp://'' \<and>
   parseEndpoint ''/var/run/csi.sock'' = Inr (''unix'', ''/var/run/csi.sock'')"
proof -
  have h1: "\<not> HasPrefix (ToLower ''/var/run/csi.sock'') ''unix://''"
    by (simp add: HasPrefix_def lower_byte_def)
  have h2: "\<not> HasPrefix (ToLower ''/var/run/csi.sock'') ''tcp://''"
    by (simp add: HasPrefix_def lower_byte_def)
  from parseEndpoint_raw_path [OF h1 h2] h1 h2 show ?thesis by simp
qed

section \<open>Listening\<close>

lemma built_append [simp]: "built (xs @ ys) = built xs @ built ys"
  by (induction xs rule: built.induct) simp_all
lemma bound_append [simp]: "bound (xs @ ys) = bound xs @ bound ys"
  by (induction xs rule: bound.induct) simp_all
lemma started_append [simp]: "started (xs @ ys) = started xs @ started ys"
  by (induction xs rule: started.induct) simp_all
lemma stopped_append [simp]: "stopped (xs @ ys) = stopped xs @ stopped ys"
  by (induction xs rule: stopped.induct) simp_all
lemma cleanups_append [simp]: "cleanups (xs @ ys) = cleanups xs @ cleanups ys"
  by (induction xs rule: cleanups.induct) simp_all

lemma attempts_built [simp]: "list_all is_attempt xs \<Longrightarrow> built xs = []"
  by (induction xs rule: built.induct) simp_all
lemma attempts_bound [simp]: "list_all is_attempt xs \<Longrightarrow> bound xs = []"
  by (induction xs rule: bound.induct) simp_all
lemma attempts_started [simp]: "list_all is_attempt xs \<Longrightarrow> started xs = []"
  by (induction xs rule: started.induct) simp_all
lemma attempts_stopped [simp]: "list_all is_attempt xs \<Longrightarrow> stopped xs = []"
  by (induction xs rule: stopped.induct) simp_all
lemma attempts_cleanups [simp]: "list_all is_attempt xs \<Longrightarrow> cleanups xs = []"
  by (induction xs rule: cleanups.induct) simp_all
lemma attempts_no_signal [simp]: "list_all is_attempt xs \<Longrightarrow> list_all (\<lambda>e. \<not> is_signal e) xs"
proof (induction xs)
  case Nil
  show ?case by simp
next
  case (Cons e xs)
  then show ?case by (cases e) simp_all
qed

lemma listen_result:
  assumes "listen P ep \<sigma> = (res, \<sigma>')"
  shows "\<exists>evs. trace \<sigma>' = trace \<sigma> @ evs \<and>
           (case res of
              Inl err \<Rightarrow> list_all is_attempt evs
            | Inr (l, c) \<Rightarrow>
                (\<exists>pre proto addr. evs = pre @ [EvListen proto addr None] \<and>
                   list_all is_attempt pre \<and> l = Listener proto addr \<and>
                   listen_address ep = Inr (proto, addr) \<and>
                   c = (if proto = ''unix'' then RemoveFile addr else NoCleanup)))"
proof (cases "parseEndpoint ep")
  case (Inl err)
  with assms show ?thesis by (auto simp: listen_def)
next
  case (Inr pa)
  obtain proto addr where pa: "pa = (proto, addr)" by (cases pa)
  show ?thesis
  proof (cases "proto = ''unix''")
    case False
    obtain r w where nl: "net_Listen P proto addr (world \<sigma>) = (r, w)" by force
    from assms Inr pa False nl
    have "trace \<sigma>' = trace \<sigma> @ [EvListen proto addr r]"
      and "res = (case r of Some err \<Rightarrow> Inl err | None \<Rightarrow> Inr (Listener proto addr, NoCleanup))"
      by (auto simp: listen_def call_Listen_def Let_def split: option.splits)
    with Inr pa False show ?thesis
      by (cases r) (auto simp: listen_address_def)
  next
    case True
    obtain r w where rm: "os_Remove P (''/'' @ addr) (world \<sigma>) = (r, w)" by force
    show ?thesis
    proof (cases "r \<noteq> None \<and> \<not> IsNotExist (the r)")
      case fatal: True
      with assms Inr pa True rm
      have "trace \<sigma>' = trace \<sigma> @ [EvRemove (''/'' @ addr) r]" and "\<exists>e. res = Inl e"
        by (auto simp: listen_def call_Remove_def Let_def)
      then show ?thesis by auto
    next
      case False
      obtain r' w' where nl: "net_Listen P ''unix'' (''/'' @ addr) w = (r', w')" by force
      from assms Inr pa True rm False nl
      have "trace \<sigma>' = trace \<sigma> @ [EvRemove (''/'' @ addr) r, EvListen ''unix'' (''/'' @ addr) r']"
        and "res = (case r' of Some err \<Rightarrow> Inl err
                    | None \<Rightarrow> Inr (Listener ''unix'' (''/'' @ addr), RemoveFile (''/'' @ addr)))"
        by (auto simp: listen_def call_Remove_def call_Listen_def Let_def split: option.splits)
      with Inr pa True show ?thesis
        by (cases r') (auto simp: listen_address_def)
    qed
  qed
qed

text \<open>
  Claim C7. For an endpoint that resolves to a filesystem socket (kind \<open>unix\<close>), the first
  thing \<open>listen\<close> does is to remove the socket path, the address prefixed by \<open>/\<close>. When
  the removal fails with an error other than "file does not exist", \<open>listen\<close> returns the
  error that carries the path and the cause, and nothing is bound. When it succeeds or fails
  with "file does not exist", \<open>listen\<close> goes on to bind the path, and the result is the
  result of \<open>net.Listen\<close>.
\<close>

theorem listen_removes_before_binding:
  assumes fs: "parseEndpoint endpoint = Inr (''unix'', a)"
    and rm: "os_Remove P (''/'' @ a) (world \<sigma>) = (r, w)"
    and nl: "net_Listen P ''unix'' (''/'' @ a) w = (r', w')"
  shows "(\<forall>err. r = Some err \<and> \<not> IsNotExist err \<longrightarrow>
            listen P endpoint \<sigma> =
              (Inl (ListenError (''/'' @ a) err),
               \<lparr>trace = trace \<sigma> @ [EvRemove (''/'' @ a) r], world = w\<rparr>)) \<and>
         (r = None \<or> (\<exists>err. r = Some err \<and> IsNotExist err) \<longrightarrow>
            listen P endpoint \<sigma> =
              (case r' of
                 Some err \<Rightarrow> Inl err
               | None \<Rightarrow> Inr (Listener ''unix'' (''/'' @ a), RemoveFile (''/'' @ a)),
               \<lparr>trace = trace \<sigma> @
                  [EvRemove (''/'' @ a) r, EvListen ''unix'' (''/'' @ a) r'],
                world = w'\<rparr>))"
  using assms
  by (auto simp: listen_def call_Remove_def call_Listen_def Let_def split: option.splits)

theorem listen_removes_before_binding_witness:
  "parseEndpoint ''unix://tmp/a.sock'' = Inr (''unix'', ''tmp/a.sock'') \<and>
   fst (listen sim_platform ''unix://tmp/a.sock''
          \<lparr>trace = [],
             world = \<lparr>files = [''/tmp/a.sock''], locked = [''/tmp/a.sock''], documents = []\<rparr>\<rparr>) =
     Inl (ListenError ''/tmp/a.sock'' (SysError ''operation not permitted'')) \<and>
   listen sim_platform ''unix://tmp/a.sock''
     \<lparr>trace = [], world = \<lparr>files = [''/tmp/a.sock''], locked = [], documents = []\<rparr>\<rparr> =
     (Inr (Listener ''unix'' ''/tmp/a.sock'', RemoveFile ''/tmp/a.sock''),
      \<lparr>trace = [EvRemove ''/tmp/a.sock'' None, EvListen ''unix'' ''/tmp/a.sock'' None],
         world = \<lparr>files = [''/tmp/a.sock''], locked = [], documents = []\<rparr>\<rparr>)"
proof -
  let ?w1 = "\<lparr>files = [''/tmp/a.sock''], locked = [''/tmp/a.sock''], documents = []\<rparr>"
  let ?w2 = "\<lparr>files = [''/tmp/a.sock''], locked = [], documents = []\<rparr>"
  let ?w3 = "\<lparr>files = [], locked = [], documents = []\<rparr>"
  have p: "parseEndpoint ''unix://tmp/a.sock'' = Inr (''unix'', ''tmp/a.sock'')"
    by (simp add: parseEndpoint_def HasPrefix_def lower_byte_def numeral_2_eq_2)
  have r1: "os_Remove sim_platform (''/'' @ ''tmp/a.sock'')
              (world \<lparr>trace = ([] :: string event list), world = ?w1\<rparr>) =
            (Some (SysError ''operation not permitted''), ?w1)"
    by (simp add: sim_platform_def)
  have l1: "net_Listen sim_platform ''unix'' (''/'' @ ''tmp/a.sock'') ?w1 =
            (Some (SysError ''address already in use''), ?w1)"
    by (simp add: sim_platform_def)
  have r2: "os_Remove sim_platform (''/'' @ ''tmp/a.sock'')
              (world \<lparr>trace = ([] :: string event list), world = ?w2\<rparr>) = (None, ?w3)"
    by (simp add: sim_platform_def)
  have l2: "net_Listen sim_platform ''unix'' (''/'' @ ''tmp/a.sock'') ?w3 = (None, ?w2)"
    by (simp add: sim_platform_def)
  from listen_removes_before_binding [OF p r1 l1] listen_removes_before_binding [OF p r2 l2] p
  show ?thesis by simp
qed

section \<open>The two branches of main\<close>

lemma fold_creds_trace:
  "trace (fold (\<lambda>d. emit (EvSetDefaultCreds d)) ds \<sigma>) = trace \<sigma> @ map EvSetDefaultCreds ds"
  by (induction ds arbitrary: \<sigma>) (simp_all add: emit_def)

lemma set_creds_trace:
  "trace (set_creds env ds \<sigma>) =
     trace \<sigma> @ creds_events env ds"
  by (auto simp: set_creds_def creds_events_def Let_def fold_creds_trace)

lemma run_cleanup_trace:
  "\<exists>rm. trace (run_cleanup P c \<sigma>) = trace \<sigma> @ EvCleanup c # rm \<and> list_all is_attempt rm"
  by (cases c) (auto simp: emit_def call_Remove_def split: prod.splits)

lemma wait_signal_trace:
  "wait_signal arrivals \<sigma> = (r, \<sigma>') \<Longrightarrow>
     r = find (\<lambda>sg. sg \<in> set sigs) arrivals \<and>
     trace \<sigma>' = trace \<sigma> @ EvNotify sigs # (case r of None \<Rightarrow> [] | Some sg \<Rightarrow> [EvSignal sg])"
  by (auto simp: wait_signal_def emit_def Let_def split: option.splits)

lemma main_combined_cases [consumes 1, case_names listen_failed start_failed blocked stopped]:
  assumes run: "main_combined P env arrivals s ep \<sigma> = (out, \<sigma>')"
  obtains
    (listen_failed) cs evs err where
      "out = Exit 1"
      "cs = creds_events env [NewCSIDriver s s s]"
      "list_all is_attempt evs"
      "trace \<sigma>' = trace \<sigma> @ EvNewDriver (NewCSIDriver s s s) # cs @ evs @
         [EvExitf (UnableToListen ep err)]"
  | (start_failed) cs evs proto addr err where
      "out = Exit 1"
      "cs = creds_events env [NewCSIDriver s s s]"
      "list_all is_attempt evs"
      "listen_address ep = Inr (proto, addr)"
      "trace \<sigma>' = trace \<sigma> @ EvNewDriver (NewCSIDriver s s s) # cs @ evs @
         [EvListen proto addr None,
          EvStart (NewCSIDriver s s s) (Listener proto addr) (Some err),
          EvExitf (UnableToStart ''mock CSI server'' err)]"
  | (blocked) cs evs proto addr where
      "out = Blocked"
      "find (\<lambda>sg. sg \<in> set sigs) arrivals = None"
      "cs = creds_events env [NewCSIDriver s s s]"
      "list_all is_attempt evs"
      "listen_address ep = Inr (proto, addr)"
      "trace \<sigma>' = trace \<sigma> @ EvNewDriver (NewCSIDriver s s s) # cs @ evs @
         [EvListen proto addr None,
          EvStart (NewCSIDriver s s s) (Listener proto addr) None,
          EvInfo (Message ''mock driver started''), EvNotify sigs]"
  | (stopped) cs evs proto addr sg rm where
      "out = Exit 0"
      "find (\<lambda>sg. sg \<in> set sigs) arrivals = Some sg"
      "cs = creds_events env [NewCSIDriver s s s]"
      "list_all is_attempt evs"
      "list_all is_attempt rm"
      "listen_address ep = Inr (proto, addr)"
      "trace \<sigma>' = trace \<sigma> @ EvNewDriver (NewCSIDriver s s s) # cs @ evs @
         [EvListen proto addr None,
          EvStart (NewCSIDriver s s s) (Listener proto addr) None,
          EvInfo (Message ''mock driver started''), EvNotify sigs, EvSignal sg,
          EvStop (NewCSIDriver s s s), EvInfo (Message ''mock driver stopped''),
          EvCleanup (cleanup_of proto addr)] @ rm"
proof -
  let ?d = "NewCSIDriver s s s"
  define \<sigma>1 where "\<sigma>1 = set_creds env [?d] (emit (EvNewDriver ?d) \<sigma>)"
  let ?cs = "creds_events env [?d]"
  have t1: "trace \<sigma>1 = trace \<sigma> @ EvNewDriver ?d # ?cs"
    by (simp add: \<sigma>1_def set_creds_trace emit_def)
  obtain res \<sigma>2 where l: "listen P ep \<sigma>1 = (res, \<sigma>2)" by force
  from listen_result [OF l] obtain evs where
    t2: "trace \<sigma>2 = trace \<sigma>1 @ evs" and
    r2: "case res of Inl err \<Rightarrow> list_all is_attempt evs
         | Inr (l, c) \<Rightarrow> (\<exists>pre proto addr. evs = pre @ [EvListen proto addr None] \<and>
              list_all is_attempt pre \<and> l = Listener proto addr \<and>
              listen_address ep = Inr (proto, addr) \<and>
              c = (if proto = ''unix'' then RemoveFile addr else NoCleanup))"
    by blast
  show thesis
  proof (cases res)
    case (Inl err)
    with run l have "out = Exit 1" "trace \<sigma>' = trace \<sigma>2 @ [EvExitf (UnableToListen ep err)]"
      by (auto simp: main_combined_def Let_def \<sigma>1_def klog_Exitf_def emit_def)
    with t1 t2 r2 Inl show thesis
      using listen_failed [of ?cs evs err] by simp
  next
    case (Inr lc)
    with r2 obtain pre proto addr where
      lc: "lc = (Listener proto addr, cleanup_of proto addr)"
      and evs: "evs = pre @ [EvListen proto addr None]" and pre: "list_all is_attempt pre"
      and la: "listen_address ep = Inr (proto, addr)"
      by (cases lc) (auto simp: cleanup_of_def)
    obtain sr \<sigma>3 where st: "call_Start P ?d (Listener proto addr) \<sigma>2 = (sr, \<sigma>3)" by force
    then have t3: "trace \<sigma>3 = trace \<sigma>2 @ [EvStart ?d (Listener proto addr) sr]"
      by (auto simp: call_Start_def split: prod.splits)
    show thesis
    proof (cases sr)
      case (Some err)
      with run l Inr lc st have "out = Exit 1"
        "trace \<sigma>' = trace \<sigma>3 @ [EvExitf (UnableToStart ''mock CSI server'' err)]"
        by (auto simp: main_combined_def Let_def \<sigma>1_def klog_Exitf_def emit_def)
      with t1 t2 t3 evs pre la Some show thesis
        using start_failed [of ?cs pre proto addr err] by simp
    next
      case None
      obtain w \<sigma>4 where ws: "wait_signal arrivals (emit (EvInfo (Message ''mock driver started'')) \<sigma>3) = (w, \<sigma>4)"
        by force
      from wait_signal_trace [OF ws] have
        w: "w = find (\<lambda>sg. sg \<in> set sigs) arrivals" and
        t4: "trace \<sigma>4 = trace \<sigma>3 @ EvInfo (Message ''mock driver started'') # EvNotify sigs #
               (case w of None \<Rightarrow> [] | Some sg \<Rightarrow> [EvSignal sg])"
        by (simp_all add: emit_def)
      show thesis
      proof (cases w)
        case wn: None
        with run l Inr lc st None ws have "out = Blocked" "\<sigma>' = \<sigma>4"
          by (auto simp: main_combined_def Let_def \<sigma>1_def)
        with t1 t2 t3 t4 evs pre la wn w None show thesis
          using blocked [of ?cs pre proto addr] by simp
      next
        case (Some sg)
        define c where "c = cleanup_of proto addr"
        define \<sigma>5 where "\<sigma>5 = emit (EvInfo (Message ''mock driver stopped'')) (call_Stop P ?d \<sigma>4)"
        from run l Inr lc st None ws Some have o: "out = Exit 0" and
          s': "\<sigma>' = run_deferred P [c] \<sigma>5"
          by (auto simp: main_combined_def Let_def \<sigma>1_def c_def \<sigma>5_def)
        from run_cleanup_trace [of P c \<sigma>5] obtain rm where
          rm: "trace (run_cleanup P c \<sigma>5) = trace \<sigma>5 @ EvCleanup c # rm" "list_all is_attempt rm"
          by blast
        have t5: "trace \<sigma>5 = trace \<sigma>4 @ [EvStop ?d, EvInfo (Message ''mock driver stopped'')]"
          by (simp add: \<sigma>5_def emit_def call_Stop_def)
        from o s' rm t5 t1 t2 t3 t4 evs pre la Some w None show thesis
          using stopped [of sg ?cs pre rm proto addr] by (simp add: c_def)
      qed
    qed
  qed
qed

lemma call_Start_trace:
  "call_Start P d l \<sigma> = (r, \<sigma>') \<Longrightarrow> trace \<sigma>' = trace \<sigma> @ [EvStart d l r]"
  by (auto simp: call_Start_def split: prod.splits)

lemma listen_cases [consumes 1, case_names failed bound]:
  assumes "listen P ep \<sigma> = (res, \<sigma>')"
  obtains
    (failed) err evs where
      "res = Inl err" "list_all is_attempt evs" "trace \<sigma>' = trace \<sigma> @ evs"
  | (bound) evs proto addr where
      "res = Inr (Listener proto addr, cleanup_of proto addr)" "list_all is_attempt evs"
      "listen_address ep = Inr (proto, addr)"
      "trace \<sigma>' = trace \<sigma> @ evs @ [EvListen proto addr None]"
proof -
  from listen_result [OF assms] obtain evs where
    t: "trace \<sigma>' = trace \<sigma> @ evs" and
    r: "case res of Inl err \<Rightarrow> list_all is_attempt evs
         | Inr (l, c) \<Rightarrow> (\<exists>pre proto addr. evs = pre @ [EvListen proto addr None] \<and>
              list_all is_attempt pre \<and> l = Listener proto addr \<and>
              listen_address ep = Inr (proto, addr) \<and>
              c = (if proto = ''unix'' then RemoveFile addr else NoCleanup))"
    by blast
  show thesis
  proof (cases res)
    case (Inl err)
    with t r show thesis using failed [of err evs] by simp
  next
    case (Inr lc)
    with r obtain pre proto addr where
      "lc = (Listener proto addr, cleanup_of proto addr)"
      "evs = pre @ [EvListen proto addr None]" "list_all is_attempt pre"
      "listen_address ep = Inr (proto, addr)"
      by (cases lc) (auto simp: cleanup_of_def)
    with t Inr show thesis using bound [of proto addr pre] by simp
  qed
qed

lemma main_split_cases
  [consumes 1, case_names ctl_listen_failed ctl_start_failed node_listen_failed
     node_start_failed blocked stopped]:
  assumes run: "main_split P env arrivals s ep cep \<sigma> = (out, \<sigma>')"
  obtains
    (ctl_listen_failed) evs err where
      "out = Exit 1"
      "list_all is_attempt evs"
      "trace \<sigma>' = trace \<sigma> @
         [EvNewDriver (NewCSIDriverController s s), EvNewDriver (NewCSIDriverNode s s)] @
         creds_events env [NewCSIDriverController s s, NewCSIDriverNode s s] @ evs @
         [EvExitf (UnableToListen cep err)]"
  | (ctl_start_failed) evs proto addr err where
      "out = Exit 1"
      "list_all is_attempt evs"
      "listen_address cep = Inr (proto, addr)"
      "trace \<sigma>' = trace \<sigma> @
         [EvNewDriver (NewCSIDriverController s s), EvNewDriver (NewCSIDriverNode s s)] @
         creds_events env [NewCSIDriverController s s, NewCSIDriverNode s s] @ evs @
         [EvListen proto addr None,
          EvStart (NewCSIDriverController s s) (Listener proto addr) (Some err),
          EvExitf (UnableToStart ''mock CSI controller server'' err)]"
  | (node_listen_failed) evs proto addr evs' err where
      "out = Exit 1"
      "list_all is_attempt evs" "list_all is_attempt evs'"
      "listen_address cep = Inr (proto, addr)"
      "trace \<sigma>' = trace \<sigma> @
         [EvNewDriver (NewCSIDriverController s s), EvNewDriver (NewCSIDriverNode s s)] @
         creds_events env [NewCSIDriverController s s, NewCSIDriverNode s s] @ evs @
         [EvListen proto addr None,
          EvStart (NewCSIDriverController s s) (Listener proto addr) None,
          EvInfo (Message ''mock controller driver started'')] @ evs' @
         [EvExitf (UnableToListen ep err)]"
  | (node_start_failed) evs proto addr evs' proto' addr' err where
      "out = Exit 1"
      "list_all is_attempt evs" "list_all is_attempt evs'"
      "listen_address cep = Inr (proto, addr)" "listen_address ep = Inr (proto', addr')"
      "trace \<sigma>' = trace \<sigma> @
         [EvNewDriver (NewCSIDriverController s s), EvNewDriver (NewCSIDriverNode s s)] @
         creds_events env [NewCSIDriverController s s, NewCSIDriverNode s s] @ evs @
         [EvListen proto addr None,
          EvStart (NewCSIDriverController s s) (Listener proto addr) None,
          EvInfo (Message ''mock controller driver started'')] @ evs' @
         [EvListen proto' addr' None,
          EvStart (NewCSIDriverNode s s) (Listener proto' addr') (Some err),
          EvExitf (UnableToStart ''mock CSI node server'' err)]"
  | (blocked) evs proto addr evs' proto' addr' where
      "out = Blocked"
      "find (\<lambda>sg. sg \<in> set sigs) arrivals = None"
      "list_all is_attempt evs" "list_all is_attempt evs'"
      "listen_address cep = Inr (proto, addr)" "listen_address ep = Inr (proto', addr')"
      "trace \<sigma>' = trace \<sigma> @
         [EvNewDriver (NewCSIDriverController s s), EvNewDriver (NewCSIDriverNode s s)] @
         creds_events env [NewCSIDriverController s s, NewCSIDriverNode s s] @ evs @
         [EvListen proto addr None,
          EvStart (NewCSIDriverController s s) (Listener proto addr) None,
          EvInfo (Message ''mock controller driver started'')] @ evs' @
         [EvListen proto' addr' None,
          EvStart (NewCSIDriverNode s s) (Listener proto' addr') None,
          EvInfo (Message ''mock node driver started''), EvNotify sigs]"
  | (stopped) evs proto addr evs' proto' addr' sg rm rm' where
      "out = Exit 0"
      "find (\<lambda>sg. sg \<in> set sigs) arrivals = Some sg"
      "list_all is_attempt evs" "list_all is_attempt evs'"
      "list_all is_attempt rm" "list_all is_attempt rm'"
      "listen_address cep = Inr (proto, addr)" "listen_address ep = Inr (proto', addr')"
      "trace \<sigma>' = trace \<sigma> @
         [EvNewDriver (NewCSIDriverController s s), EvNewDriver (NewCSIDriverNode s s)] @
         creds_events env [NewCSIDriverController s s, NewCSIDriverNode s s] @ evs @
         [EvListen proto addr None,
          EvStart (NewCSIDriverController s s) (Listener proto addr) None,
          EvInfo (Message ''mock controller driver started'')] @ evs' @
         [EvListen proto' addr' None,
          EvStart (NewCSIDriverNode s s) (Listener proto' addr') None,
          EvInfo (Message ''mock node driver started''), EvNotify sigs, EvSignal sg,
          EvStop (NewCSIDriverController s s), EvStop (NewCSIDriverNode s s),
          EvInfo (Message ''mock drivers stopped''),
          EvCleanup (cleanup_of proto' addr')] @ rm' @
         EvCleanup (cleanup_of proto addr) # rm"
proof -
  let ?dc = "NewCSIDriverController s s"
  let ?dn = "NewCSIDriverNode s s"
  define \<sigma>1 where
    "\<sigma>1 = set_creds env [?dc, ?dn] (emit (EvNewDriver ?dn) (emit (EvNewDriver ?dc) \<sigma>))"
  have t1: "trace \<sigma>1 = trace \<sigma> @ [EvNewDriver ?dc, EvNewDriver ?dn] @ creds_events env [?dc, ?dn]"
    by (simp add: \<sigma>1_def set_creds_trace emit_def)
  obtain res \<sigma>2 where l: "listen P cep \<sigma>1 = (res, \<sigma>2)" by force
  from l show thesis
  proof (cases rule: listen_cases)
    case (failed err evs)
    with run l have "out = Exit 1" "trace \<sigma>' = trace \<sigma>2 @ [EvExitf (UnableToListen cep err)]"
      by (auto simp: main_split_def Let_def \<sigma>1_def klog_Exitf_def emit_def)
    with t1 failed show thesis
      using ctl_listen_failed [of evs err] by simp
  next
    case (bound evs proto addr)
    obtain sr \<sigma>3 where st: "call_Start P ?dc (Listener proto addr) \<sigma>2 = (sr, \<sigma>3)" by force
    note t3 = call_Start_trace [OF st]
    show thesis
    proof (cases sr)
      case (Some err)
      with run l bound(1) st have "out = Exit 1"
        "trace \<sigma>' = trace \<sigma>3 @ [EvExitf (UnableToStart ''mock CSI controller server'' err)]"
        by (auto simp: main_split_def Let_def \<sigma>1_def klog_Exitf_def emit_def)
      with t1 t3 bound Some show thesis
        using ctl_start_failed [of evs proto addr err] by simp
    next
      case None
      define \<sigma>3' where "\<sigma>3' = emit (EvInfo (Message ''mock controller driver started'')) \<sigma>3"
      have t3': "trace \<sigma>3' = trace \<sigma>3 @ [EvInfo (Message ''mock controller driver started'')]"
        by (simp add: \<sigma>3'_def emit_def)
      obtain res' \<sigma>4 where l': "listen P ep \<sigma>3' = (res', \<sigma>4)" by force
      from l' show thesis
      proof (cases rule: listen_cases)
        case (failed err evs')
        with run l bound(1) st None l' have "out = Exit 1"
          "trace \<sigma>' = trace \<sigma>4 @ [EvExitf (UnableToListen ep err)]"
          by (auto simp: main_split_def Let_def \<sigma>1_def \<sigma>3'_def klog_Exitf_def emit_def)
        with t1 t3 t3' bound None failed show thesis
          using node_listen_failed [of evs evs' proto addr err] by simp
      next
        case b': (bound evs' proto' addr')
        obtain sr' \<sigma>5 where st': "call_Start P ?dn (Listener proto' addr') \<sigma>4 = (sr', \<sigma>5)"
          by force
        note t5 = call_Start_trace [OF st']
        show thesis
        proof (cases sr')
          case (Some err)
          with run l bound(1) st None l' b'(1) st' have "out = Exit 1"
            "trace \<sigma>' = trace \<sigma>5 @ [EvExitf (UnableToStart ''mock CSI node server'' err)]"
            by (auto simp: main_split_def Let_def \<sigma>1_def \<sigma>3'_def klog_Exitf_def emit_def)
          with t1 t3 t3' t5 bound None b' Some show thesis
            using node_start_failed [of evs evs' proto addr proto' addr' err] by simp
        next
          case n': None
          obtain w \<sigma>6 where
            ws: "wait_signal arrivals (emit (EvInfo (Message ''mock node driver started'')) \<sigma>5) = (w, \<sigma>6)"
            by force
          from wait_signal_trace [OF ws] have
            w: "w = find (\<lambda>sg. sg \<in> set sigs) arrivals" and
            t6: "trace \<sigma>6 = trace \<sigma>5 @ EvInfo (Message ''mock node driver started'') #
                   EvNotify sigs # (case w of None \<Rightarrow> [] | Some sg \<Rightarrow> [EvSignal sg])"
            by (simp_all add: emit_def)
          show thesis
          proof (cases w)
            case wn: None
            with run l bound(1) st None l' b'(1) st' n' ws have "out = Blocked" "\<sigma>' = \<sigma>6"
              by (auto simp: main_split_def Let_def \<sigma>1_def \<sigma>3'_def)
            with t1 t3 t3' t5 t6 bound None b' n' wn w show thesis
              using blocked [of evs evs' proto addr proto' addr'] by simp
          next
            case (Some sg)
            define \<sigma>7 where "\<sigma>7 = emit (EvInfo (Message ''mock drivers stopped''))
                                     (call_Stop P ?dn (call_Stop P ?dc \<sigma>6))"
            have t7: "trace \<sigma>7 = trace \<sigma>6 @ [EvStop ?dc, EvStop ?dn,
                        EvInfo (Message ''mock drivers stopped'')]"
              by (simp add: \<sigma>7_def emit_def call_Stop_def)
            from run l bound(1) st None l' b'(1) st' n' ws Some have o: "out = Exit 0" and
              s': "\<sigma>' = run_cleanup P (cleanup_of proto addr)
                          (run_cleanup P (cleanup_of proto' addr') \<sigma>7)"
              by (auto simp: main_split_def Let_def \<sigma>1_def \<sigma>3'_def \<sigma>7_def)
            from run_cleanup_trace [of P "cleanup_of proto' addr'" \<sigma>7] obtain rm' where
              rm': "trace (run_cleanup P (cleanup_of proto' addr') \<sigma>7) =
                      trace \<sigma>7 @ EvCleanup (cleanup_of proto' addr') # rm'"
                   "list_all is_attempt rm'"
              by blast
            from run_cleanup_trace [of P "cleanup_of proto addr"
                "run_cleanup P (cleanup_of proto' addr') \<sigma>7"] obtain rm where
              rm: "trace \<sigma>' = trace (run_cleanup P (cleanup_of proto' addr') \<sigma>7) @
                      EvCleanup (cleanup_of proto addr) # rm"
                  "list_all is_attempt rm"
              unfolding s' by blast
            from o rm rm' t7 t1 t3 t3' t5 t6 bound None b' n' Some w show thesis
              using stopped [of sg evs evs' rm rm' proto addr proto' addr'] by simp
          qed
        qed
      qed
    qed
  qed
qed

section \<open>The whole run\<close>

lemma services_append [simp]: "services (xs @ ys) = services xs @ services ys"
  by (induction xs rule: services.induct) simp_all
lemma received_append [simp]: "received (xs @ ys) = received xs @ received ys"
  by (induction xs rule: received.induct) simp_all
lemma attempts_services [simp]: "list_all is_attempt xs \<Longrightarrow> services xs = []"
  by (induction xs rule: services.induct) simp_all
lemma attempts_received [simp]: "list_all is_attempt xs \<Longrightarrow> received xs = []"
  by (induction xs rule: received.induct) simp_all

lemma hooks_built [simp]: "list_all is_hook_event xs \<Longrightarrow> built xs = []"
  by (induction xs rule: built.induct) simp_all
lemma hooks_bound [simp]: "list_all is_hook_event xs \<Longrightarrow> bound xs = []"
  by (induction xs rule: bound.induct) simp_all
lemma hooks_started [simp]: "list_all is_hook_event xs \<Longrightarrow> started xs = []"
  by (induction xs rule: started.induct) simp_all
lemma hooks_stopped [simp]: "list_all is_hook_event xs \<Longrightarrow> stopped xs = []"
  by (induction xs rule: stopped.induct) simp_all
lemma hooks_cleanups [simp]: "list_all is_hook_event xs \<Longrightarrow> cleanups xs = []"
  by (induction xs rule: cleanups.induct) simp_all
lemma hooks_services [simp]: "list_all is_hook_event xs \<Longrightarrow> services xs = []"
  by (induction xs rule: services.induct) simp_all
lemma hooks_received [simp]: "list_all is_hook_event xs \<Longrightarrow> received xs = []"
  by (induction xs rule: received.induct) simp_all
lemma hooks_no_signal [simp]:
  "list_all is_hook_event xs \<Longrightarrow> list_all (\<lambda>e. \<not> is_signal e) xs"
proof (induction xs)
  case Nil
  show ?case by simp
next
  case (Cons e xs)
  then show ?case by (cases e) simp_all
qed

lemma creds_built [simp]: "built (creds_events env ds) = []"
  by (induction ds) (auto simp: creds_events_def split: if_splits)
lemma creds_bound [simp]: "bound (creds_events env ds) = []"
  by (induction ds) (auto simp: creds_events_def split: if_splits)
lemma creds_started [simp]: "started (creds_events env ds) = []"
  by (induction ds) (auto simp: creds_events_def split: if_splits)
lemma creds_stopped [simp]: "stopped (creds_events env ds) = []"
  by (induction ds) (auto simp: creds_events_def split: if_splits)
lemma creds_cleanups [simp]: "cleanups (creds_events env ds) = []"
  by (induction ds) (auto simp: creds_events_def split: if_splits)
lemma creds_services [simp]: "services (creds_events env ds) = []"
  by (induction ds) (auto simp: creds_events_def split: if_splits)
lemma creds_received [simp]: "received (creds_events env ds) = []"
  by (induction ds) (auto simp: creds_events_def split: if_splits)
lemma creds_no_signal [simp]: "list_all (\<lambda>e. \<not> is_signal e) (creds_events env ds)"
  by (induction ds) (auto simp: creds_events_def split: if_splits)

lemma before_signal_append [simp]:
  "list_all (\<lambda>e. \<not> is_signal e) xs \<Longrightarrow> before_signal (xs @ ys) = xs @ before_signal ys"
  by (simp add: before_signal_def list_all_iff)
lemma after_signal_append [simp]:
  "list_all (\<lambda>e. \<not> is_signal e) xs \<Longrightarrow> after_signal (xs @ ys) = after_signal ys"
  by (simp add: after_signal_def list_all_iff)
lemma before_signal_Cons [simp]:
  "before_signal (e # ys) = (if is_signal e then [] else e # before_signal ys)"
  by (simp add: before_signal_def)
lemma after_signal_Cons [simp]:
  "after_signal (e # ys) = (if is_signal e then e # ys else after_signal ys)"
  by (simp add: after_signal_def)
lemma before_signal_Nil [simp]: "before_signal [] = []"
  by (simp add: before_signal_def)
lemma after_signal_Nil [simp]: "after_signal [] = []"
  by (simp add: after_signal_def)

lemma parseHooksFile_trace:
  "parseHooksFile P file \<sigma> = (r, \<sigma>') \<Longrightarrow>
     \<exists>hs. trace \<sigma>' = trace \<sigma> @ hs \<and> list_all is_hook_event hs"
  by (auto simp: parseHooksFile_def call_Open_def call_ReadAll_def call_Close_def emit_def
           split: prod.splits option.splits sum.splits)

lemma load_hooks_trace:
  assumes "load_hooks P file (flag_Parse fl) \<sigma> = (config, \<sigma>')"
  shows "\<exists>hs. trace \<sigma>' = trace \<sigma> @ hs \<and> list_all is_hook_event hs"
proof (cases "file = []")
  case True
  with assms show ?thesis by (simp add: load_hooks_def)
next
  case False
  obtain r \<sigma>1 where p: "parseHooksFile P file \<sigma> = (r, \<sigma>1)" by force
  from parseHooksFile_trace [OF p] obtain hs where
    hs: "trace \<sigma>1 = trace \<sigma> @ hs" "list_all is_hook_event hs" by blast
  show ?thesis
  proof (cases r)
    case (Inl err)
    with assms False p have "trace \<sigma>' = trace \<sigma>1 @ [EvErrorf (FailedToLoadHooks file err)]"
      by (auto simp: load_hooks_def emit_def)
    with hs have "trace \<sigma>' = trace \<sigma> @ (hs @ [EvErrorf (FailedToLoadHooks file err)]) \<and>
        list_all is_hook_event (hs @ [EvErrorf (FailedToLoadHooks file err)])" by simp
    then show ?thesis by blast
  next
    case (Inr h)
    with assms False p have "\<sigma>' = \<sigma>1" by (auto simp: load_hooks_def)
    with hs show ?thesis by blast
  qed
qed

lemma main_steps:
  assumes "main P fl env arrivals \<sigma> = (out, \<sigma>')"
  obtains hs config \<sigma>2 where
    "list_all is_hook_event hs"
    "trace \<sigma>2 = trace \<sigma> @ hs @ [EvNewService config]"
    "hooks_file fl = [] \<Longrightarrow> config = flag_Parse fl"
    "(if Getenv env ''CSI_ENDPOINT'' = controller_endpoint env
      then main_combined P env arrivals (service_New config) (Getenv env ''CSI_ENDPOINT'') \<sigma>2
      else main_split P env arrivals (service_New config) (Getenv env ''CSI_ENDPOINT'')
             (controller_endpoint env) \<sigma>2) = (out, \<sigma>')"
proof -
  obtain config \<sigma>1 where lh: "load_hooks P (hooks_file fl) (flag_Parse fl) \<sigma> = (config, \<sigma>1)"
    by force
  from load_hooks_trace [OF lh] obtain hs where
    hs: "trace \<sigma>1 = trace \<sigma> @ hs" "list_all is_hook_event hs" by blast
  have c: "hooks_file fl = [] \<Longrightarrow> config = flag_Parse fl"
    using lh by (simp add: load_hooks_def)
  define \<sigma>2 where "\<sigma>2 = emit (EvNewService config) \<sigma>1"
  have t: "trace \<sigma>2 = trace \<sigma> @ hs @ [EvNewService config]"
    using hs by (simp add: \<sigma>2_def emit_def)
  have "(if Getenv env ''CSI_ENDPOINT'' = controller_endpoint env
      then main_combined P env arrivals (service_New config) (Getenv env ''CSI_ENDPOINT'') \<sigma>2
      else main_split P env arrivals (service_New config) (Getenv env ''CSI_ENDPOINT'')
             (controller_endpoint env) \<sigma>2) = (out, \<sigma>')"
    using assms lh by (auto simp: main_def Let_def controller_endpoint_def \<sigma>2_def split: if_splits)
  with hs(2) t c show thesis using that by blast
qed

lemma combined_run_facts:
  assumes eq: "Getenv env ''CSI_ENDPOINT'' = controller_endpoint env"
    and run: "run P fl env arrivals w = (out, \<sigma>')"
  shows "map roles (built (trace \<sigma>')) = [{Identity, Controller, Node}] \<and>
    length (bound (trace \<sigma>')) \<le> 1 \<and>
    (\<forall>tgt\<in>set (bound (trace \<sigma>')). listen_address (Getenv env ''CSI_ENDPOINT'') = Inr tgt) \<and>
    (\<forall>(d, l)\<in>set (started (trace \<sigma>')). built (trace \<sigma>') = [d] \<and>
           (\<exists>proto addr. l = Listener proto addr \<and> bound (trace \<sigma>') = [(proto, addr)])) \<and>
    (out \<noteq> Exit 1 \<longrightarrow> length (bound (trace \<sigma>')) = 1 \<and>
           map fst (started (trace \<sigma>')) = built (trace \<sigma>') \<and>
           map fst (started (before_signal (trace \<sigma>'))) = built (trace \<sigma>')) \<and>
    (out \<noteq> Exit 1 \<and> find (\<lambda>sg. sg \<in> set sigs) arrivals = Some sg \<longrightarrow>
           out = Exit 0 \<and> received (trace \<sigma>') = [sg] \<and>
           stopped (after_signal (trace \<sigma>')) = built (trace \<sigma>') \<and>
           stopped (before_signal (trace \<sigma>')) = [] \<and>
           started (after_signal (trace \<sigma>')) = []) \<and>
    length (cleanups (trace \<sigma>')) = (if out = Exit 0 then length (bound (trace \<sigma>')) else 0)"
proof -
  from run have m: "main P fl env arrivals \<lparr>trace = [], world = w\<rparr> = (out, \<sigma>')"
    by (simp add: run_def)
  from m obtain hs config \<sigma>2 where
    hs: "list_all is_hook_event hs" and
    t2: "trace \<sigma>2 = hs @ [EvNewService config]" and
    br: "main_combined P env arrivals (service_New config) (Getenv env ''CSI_ENDPOINT'') \<sigma>2 =
           (out, \<sigma>')"
    by (rule main_steps) (use eq in simp)
  from br show ?thesis
  proof (cases rule: main_combined_cases)
    case (listen_failed cs evs err)
    with hs t2 show ?thesis by (auto simp: insert_commute)
  next
    case (start_failed cs evs proto addr err)
    with hs t2 show ?thesis by (auto simp: insert_commute)
  next
    case (blocked cs evs proto addr)
    with hs t2 show ?thesis by (auto simp: insert_commute)
  next
    case (stopped cs evs proto addr sg' rm)
    with hs t2 show ?thesis by (auto simp: insert_commute)
  qed
qed

lemma split_run_facts:
  assumes ne: "Getenv env ''CSI_ENDPOINT'' \<noteq> controller_endpoint env"
    and run: "run P fl env arrivals w = (out, \<sigma>')"
  shows "map roles (built (trace \<sigma>')) = [{Identity, Controller}, {Identity, Node}] \<and>
    length (bound (trace \<sigma>')) \<le> 2 \<and>
    (\<forall>(d, l)\<in>set (started (trace \<sigma>')). \<exists>proto addr. l = Listener proto addr \<and>
       (roles d = {Identity, Controller} \<and>
          listen_address (controller_endpoint env) = Inr (proto, addr) \<or>
        roles d = {Identity, Node} \<and>
          listen_address (Getenv env ''CSI_ENDPOINT'') = Inr (proto, addr))) \<and>
    (out \<noteq> Exit 1 \<longrightarrow> length (bound (trace \<sigma>')) = 2 \<and>
           map fst (started (trace \<sigma>')) = built (trace \<sigma>') \<and>
           map fst (started (before_signal (trace \<sigma>'))) = built (trace \<sigma>')) \<and>
    (out \<noteq> Exit 1 \<and> find (\<lambda>sg. sg \<in> set sigs) arrivals = Some sg \<longrightarrow>
           out = Exit 0 \<and> received (trace \<sigma>') = [sg] \<and>
           stopped (after_signal (trace \<sigma>')) = built (trace \<sigma>') \<and>
           stopped (before_signal (trace \<sigma>')) = [] \<and>
           started (after_signal (trace \<sigma>')) = []) \<and>
    length (cleanups (trace \<sigma>')) = (if out = Exit 0 then length (bound (trace \<sigma>')) else 0)"
proof -
  from run have m: "main P fl env arrivals \<lparr>trace = [], world = w\<rparr> = (out, \<sigma>')"
    by (simp add: run_def)
  from m obtain hs config \<sigma>2 where
    hs: "list_all is_hook_event hs" and
    t2: "trace \<sigma>2 = hs @ [EvNewService config]" and
    br: "main_split P env arrivals (service_New config) (Getenv env ''CSI_ENDPOINT'')
           (controller_endpoint env) \<sigma>2 = (out, \<sigma>')"
    by (rule main_steps) (use ne in simp)
  from br show ?thesis
  proof (cases rule: main_split_cases)
    case (ctl_listen_failed evs err)
    with hs t2 show ?thesis by (auto simp: insert_commute)
  next
    case (ctl_start_failed evs proto addr err)
    with hs t2 show ?thesis by (auto simp: insert_commute)
  next
    case (node_listen_failed evs proto addr evs' err)
    with hs t2 show ?thesis by (auto simp: insert_commute)
  next
    case (node_start_failed evs proto addr evs' proto' addr' err)
    with hs t2 show ?thesis by (auto simp: insert_commute)
  next
    case (blocked evs proto addr evs' proto' addr')
    with hs t2 show ?thesis by (auto simp: insert_commute)
  next
    case (stopped evs proto addr evs' proto' addr' sg' rm rm')
    with hs t2 show ?thesis by (auto simp: insert_commute)
  qed
qed

section \<open>Topology\<close>

text \<open>
  Claim C2. When the controller endpoint is unset or empty, or equal to the common endpoint
  as a string, every run constructs exactly one member, serving identity, controller and
  node. At most one address is bound, and it is the one \<open>listen\<close> derives from the primary
  endpoint \<open>CSI_ENDPOINT\<close>; a member is only ever started on the listener bound there; and
  unless startup fails (exit status 1), exactly one address is bound and the member is
  started on it.
\<close>

theorem combined_topology_one_member:
  assumes eq: "Getenv env ''CSI_CONTROLLER_ENDPOINT'' = [] \<or>
               Getenv env ''CSI_CONTROLLER_ENDPOINT'' = Getenv env ''CSI_ENDPOINT''"
    and run: "run P fl env arrivals w = (out, \<sigma>')"
  shows "map roles (built (trace \<sigma>')) = [{Identity, Controller, Node}] \<and>
         length (bound (trace \<sigma>')) \<le> 1 \<and>
         (\<forall>tgt\<in>set (bound (trace \<sigma>')).
            listen_address (Getenv env ''CSI_ENDPOINT'') = Inr tgt) \<and>
         (\<forall>(d, l)\<in>set (started (trace \<sigma>')). built (trace \<sigma>') = [d] \<and>
            (\<exists>proto addr. l = Listener proto addr \<and> bound (trace \<sigma>') = [(proto, addr)])) \<and>
         (out \<noteq> Exit 1 \<longrightarrow> length (bound (trace \<sigma>')) = 1 \<and>
            map fst (started (trace \<sigma>')) = built (trace \<sigma>'))"
proof -
  from eq have "Getenv env ''CSI_ENDPOINT'' = controller_endpoint env"
    by (auto simp: controller_endpoint_def)
  from combined_run_facts [OF this run] show ?thesis by simp
qed

theorem combined_topology_one_member_witness:
  "Getenv scenario_same ''CSI_CONTROLLER_ENDPOINT'' = Getenv scenario_same ''CSI_ENDPOINT'' \<and>
   fst (run sim_platform (flag_defaults ''mock'') scenario_same [SIGINT] empty_world) = Exit 0 \<and>
   map roles (built (trace (snd (run sim_platform (flag_defaults ''mock'') scenario_same
     [SIGINT] empty_world)))) = [{Identity, Controller, Node}] \<and>
   bound (trace (snd (run sim_platform (flag_defaults ''mock'') scenario_same [SIGINT]
     empty_world))) = [(''tcp'', ''127.0.0.1:9000'')] \<and>
   map snd (started (trace (snd (run sim_platform (flag_defaults ''mock'') scenario_same
     [SIGINT] empty_world)))) = [Listener ''tcp'' ''127.0.0.1:9000'']"
proof -
  let ?r = "run sim_platform (flag_defaults ''mock'') scenario_same [SIGINT] empty_world"
  have h: "Getenv scenario_same ''CSI_CONTROLLER_ENDPOINT'' = Getenv scenario_same ''CSI_ENDPOINT''"
    by code_simp
  then have h': "Getenv scenario_same ''CSI_CONTROLLER_ENDPOINT'' = [] \<or>
      Getenv scenario_same ''CSI_CONTROLLER_ENDPOINT'' = Getenv scenario_same ''CSI_ENDPOINT''"
    by (rule disjI2)
  have r: "?r = (fst ?r, snd ?r)" by simp
  from combined_topology_one_member [OF h' r]
  have c: "map roles (built (trace (snd ?r))) = [{Identity, Controller, Node}]"
    by (rule conjunct1)
  have e1: "fst ?r = Exit 0" by code_simp
  have e2: "bound (trace (snd ?r)) = [(''tcp'', ''127.0.0.1:9000'')]" by code_simp
  have e3: "map snd (started (trace (snd ?r))) = [Listener ''tcp'' ''127.0.0.1:9000'']"
    by code_simp
  from h e1 c e2 e3 show ?thesis by (intro conjI)
qed

text \<open>
  Claim C1, as stated, puts the controller member on the primary endpoint and the node
  member on the secondary one. In the scenario with \<open>CSI_ENDPOINT\<close> on port 9000 and
  \<open>CSI_CONTROLLER_ENDPOINT\<close> on port 9001 the controller member is started on the listener
  of port 9001 and the node member on the listener of port 9000.
\<close>

theorem split_topology_controller_on_secondary:
  "Getenv scenario_split ''CSI_ENDPOINT'' = ''tcp://127.0.0.1:9000'' \<and>
   Getenv scenario_split ''CSI_CONTROLLER_ENDPOINT'' = ''tcp://127.0.0.1:9001'' \<and>
   listen_address ''tcp://127.0.0.1:9000'' = Inr (''tcp'', ''127.0.0.1:9000'') \<and>
   listen_address ''tcp://127.0.0.1:9001'' = Inr (''tcp'', ''127.0.0.1:9001'') \<and>
   started (trace (snd (run sim_platform (flag_defaults ''mock'') scenario_split [SIGTERM]
                          empty_world))) =
     [(NewCSIDriverController (service_New (flag_Parse (flag_defaults ''mock'')))
         (service_New (flag_Parse (flag_defaults ''mock''))),
       Listener ''tcp'' ''127.0.0.1:9001''),
      (NewCSIDriverNode (service_New (flag_Parse (flag_defaults ''mock'')))
         (service_New (flag_Parse (flag_defaults ''mock''))),
       Listener ''tcp'' ''127.0.0.1:9000'')]"
  by code_simp

text \<open>
  Claim C1, amended. When the controller endpoint is set, non-empty and different from the
  common endpoint, every run constructs exactly two members, the first serving identity and
  controller, the second identity and node. A member that is started serves identity and
  controller on the listener bound to the secondary endpoint \<open>CSI_CONTROLLER_ENDPOINT\<close>, or
  identity and node on the listener bound to the primary endpoint \<open>CSI_ENDPOINT\<close>; unless
  startup fails, two addresses are bound and both members are started.
\<close>

theorem split_topology_members:
  assumes set: "Getenv env ''CSI_CONTROLLER_ENDPOINT'' \<noteq> []"
    and ne: "Getenv env ''CSI_CONTROLLER_ENDPOINT'' \<noteq> Getenv env ''CSI_ENDPOINT''"
    and run: "run P fl env arrivals w = (out, \<sigma>')"
  shows "map roles (built (trace \<sigma>')) = [{Identity, Controller}, {Identity, Node}] \<and>
         length (bound (trace \<sigma>')) \<le> 2 \<and>
         (\<forall>(d, l)\<in>set (started (trace \<sigma>')). \<exists>proto addr. l = Listener proto addr \<and>
            (roles d = {Identity, Controller} \<and>
               listen_address (Getenv env ''CSI_CONTROLLER_ENDPOINT'') = Inr (proto, addr) \<or>
             roles d = {Identity, Node} \<and>
               listen_address (Getenv env ''CSI_ENDPOINT'') = Inr (proto, addr))) \<and>
         (out \<noteq> Exit 1 \<longrightarrow> length (bound (trace \<sigma>')) = 2 \<and>
            map fst (started (trace \<sigma>')) = built (trace \<sigma>'))"
proof -
  from set ne have c: "controller_endpoint env = Getenv env ''CSI_CONTROLLER_ENDPOINT''"
    and "Getenv env ''CSI_ENDPOINT'' \<noteq> controller_endpoint env"
    by (auto simp: controller_endpoint_def)
  from split_run_facts [OF this(2) run] show ?thesis unfolding c by simp
qed

theorem split_topology_members_witness:
  "Getenv scenario_split ''CSI_CONTROLLER_ENDPOINT'' \<noteq> [] \<and>
   Getenv scenario_split ''CSI_CONTROLLER_ENDPOINT'' \<noteq> Getenv scenario_split ''CSI_ENDPOINT'' \<and>
   fst (run sim_platform (flag_defaults ''mock'') scenario_split [SIGTERM] empty_world) = Exit 0 \<and>
   map roles (built (trace (snd (run sim_platform (flag_defaults ''mock'') scenario_split
      [SIGTERM] empty_world)))) = [{Identity, Controller}, {Identity, Node}] \<and>
   length (bound (trace (snd (run sim_platform (flag_defaults ''mock'') scenario_split
      [SIGTERM] empty_world)))) = 2"
proof -
  let ?r = "run sim_platform (flag_defaults ''mock'') scenario_split [SIGTERM] empty_world"
  have h1: "Getenv scenario_split ''CSI_CONTROLLER_ENDPOINT'' \<noteq> []" by code_simp
  have h2: "Getenv scenario_split ''CSI_CONTROLLER_ENDPOINT'' \<noteq>
            Getenv scenario_split ''CSI_ENDPOINT''" by code_simp
  have r: "?r = (fst ?r, snd ?r)" by simp
  have e: "fst ?r = Exit 0" by code_simp
  from split_topology_members [OF h1 h2 r] e
  have "map roles (built (trace (snd ?r))) = [{Identity, Controller}, {Identity, Node}] \<and>
        length (bound (trace (snd ?r))) = 2" by simp
  with h1 h2 e show ?thesis by simp
qed

text \<open>
  Claim C6. With \<open>CSI_ENDPOINT\<close> set to \<open>unix:///tmp/a.sock\<close> and
  \<open>CSI_CONTROLLER_ENDPOINT\<close> not set, every run takes the combined branch and constructs
  one member serving the three roles. The only address ever bound is a filesystem socket,
  and its file is \<open>/tmp/a.sock\<close>: the endpoint resolves to the address \<open>/tmp/a.sock\<close>,
  \<open>listen\<close> puts a \<open>/\<close> in front of it, and the address string \<open>//tmp/a.sock\<close> names that
  file. Unless startup fails, the socket is bound exactly once and the member is started on
  its listener.
\<close>

theorem scenario_combined_socket:
  assumes ep: "env ''CSI_ENDPOINT'' = Some ''unix:///tmp/a.sock''"
    and cep: "env ''CSI_CONTROLLER_ENDPOINT'' = None"
    and run: "run P fl env arrivals w = (out, \<sigma>')"
  shows "map roles (built (trace \<sigma>')) = [{Identity, Controller, Node}] \<and>
         length (bound (trace \<sigma>')) \<le> 1 \<and>
         (\<forall>tgt\<in>set (bound (trace \<sigma>')). tgt = (''unix'', ''//tmp/a.sock'')) \<and>
         (\<forall>path\<in>set (socket_paths (trace \<sigma>')). path = ''/tmp/a.sock'') \<and>
         (\<forall>(d, l)\<in>set (started (trace \<sigma>')). l = Listener ''unix'' ''//tmp/a.sock'') \<and>
         (out \<noteq> Exit 1 \<longrightarrow>
            socket_paths (trace \<sigma>') = [''/tmp/a.sock''] \<and>
            bound (trace \<sigma>') = [(''unix'', ''//tmp/a.sock'')] \<and>
            map snd (started (trace \<sigma>')) = [Listener ''unix'' ''//tmp/a.sock''])"
proof -
  from ep cep have e: "Getenv env ''CSI_ENDPOINT'' = ''unix:///tmp/a.sock''"
    and eq: "Getenv env ''CSI_ENDPOINT'' = controller_endpoint env"
    by (simp_all add: controller_endpoint_def Getenv_def)
  have la: "listen_address ''unix:///tmp/a.sock'' = Inr (''unix'', ''//tmp/a.sock'')"
    by (simp add: listen_address_def parseEndpoint_def HasPrefix_def lower_byte_def
          numeral_2_eq_2)
  have fp: "filesystem_path ''//tmp/a.sock'' = ''/tmp/a.sock''"
    by simp
  from run have "main P fl env arrivals \<lparr>trace = [], world = w\<rparr> = (out, \<sigma>')"
    by (simp add: run_def)
  then obtain hs config \<sigma>2 where
    hs: "list_all is_hook_event hs" and
    t2: "trace \<sigma>2 = hs @ [EvNewService config]" and
    br: "main_combined P env arrivals (service_New config) ''unix:///tmp/a.sock'' \<sigma>2 =
           (out, \<sigma>')"
    by (rule main_steps) (use eq e in simp)
  from br show ?thesis
  proof (cases rule: main_combined_cases)
    case (listen_failed cs evs err)
    with hs t2 show ?thesis by (auto simp: insert_commute socket_paths_def)
  next
    case (start_failed cs evs proto addr err)
    with hs t2 la show ?thesis by (auto simp: insert_commute socket_paths_def)
  next
    case (blocked cs evs proto addr)
    with hs t2 la show ?thesis by (auto simp: insert_commute socket_paths_def)
  next
    case (stopped cs evs proto addr sg' rm)
    with hs t2 la show ?thesis by (auto simp: insert_commute socket_paths_def)
  qed
qed

theorem scenario_combined_socket_witness:
  "scenario_combined ''CSI_ENDPOINT'' = Some ''unix:///tmp/a.sock'' \<and>
   scenario_combined ''CSI_CONTROLLER_ENDPOINT'' = None \<and>
   fst (run sim_platform (flag_defaults ''mock'') scenario_combined [SIGTERM] empty_world) =
     Exit 0 \<and>
   map roles (built (trace (snd (run sim_platform (flag_defaults ''mock'') scenario_combined
     [SIGTERM] empty_world)))) = [{Identity, Controller, Node}] \<and>
   socket_paths (trace (snd (run sim_platform (flag_defaults ''mock'') scenario_combined
     [SIGTERM] empty_world))) = [''/tmp/a.sock''] \<and>
   bound (trace (snd (run sim_platform (flag_defaults ''mock'') scenario_combined
     [SIGTERM] empty_world))) = [(''unix'', ''//tmp/a.sock'')] \<and>
   map snd (started (trace (snd (run sim_platform (flag_defaults ''mock'') scenario_combined
     [SIGTERM] empty_world)))) = [Listener ''unix'' ''//tmp/a.sock''] \<and>
   files (world (snd (run sim_platform (flag_defaults ''mock'') scenario_combined []
     empty_world))) = [''/tmp/a.sock'']"
proof -
  let ?r = "run sim_platform (flag_defaults ''mock'') scenario_combined [SIGTERM] empty_world"
  let ?b = "run sim_platform (flag_defaults ''mock'') scenario_combined [] empty_world"
  have h1: "scenario_combined ''CSI_ENDPOINT'' = Some ''unix:///tmp/a.sock''"
    by (simp add: scenario_combined_def)
  have h2: "scenario_combined ''CSI_CONTROLLER_ENDPOINT'' = None"
    by (simp add: scenario_combined_def)
  have r: "?r = (fst ?r, snd ?r)" by simp
  have e: "fst ?r = Exit 0" by code_simp
  have ne: "fst ?r \<noteq> Exit 1" unfolding e by simp
  have w: "files (world (snd ?b)) = [''/tmp/a.sock'']" by code_simp
  note t = scenario_combined_socket [OF h1 h2 r]
  from t have c1: "map roles (built (trace (snd ?r))) = [{Identity, Controller, Node}]"
    by (rule conjunct1)
  from t have imp: "fst ?r \<noteq> Exit 1 \<longrightarrow>
      socket_paths (trace (snd ?r)) = [''/tmp/a.sock''] \<and>
      bound (trace (snd ?r)) = [(''unix'', ''//tmp/a.sock'')] \<and>
      map snd (started (trace (snd ?r))) = [Listener ''unix'' ''//tmp/a.sock'']"
    by (elim conjE)
  from imp ne have c2: "socket_paths (trace (snd ?r)) = [''/tmp/a.sock''] \<and>
      bound (trace (snd ?r)) = [(''unix'', ''//tmp/a.sock'')] \<and>
      map snd (started (trace (snd ?r))) = [Listener ''unix'' ''//tmp/a.sock'']"
    by (rule mp)
  from h1 h2 e c1 c2 w show ?thesis by (intro conjI) (elim conjE, assumption)+
qed

section \<open>Shutdown and failure\<close>

text \<open>
  Claim C8. The cleanup of an acquired listener should run exactly once on every exit path.
  \<open>main\<close> defers the cleanup and leaves through \<open>klog.Exitf\<close> on a startup failure, and
  \<open>os.Exit\<close> runs no deferred call. With the controller endpoint \<open>unix://tmp/c.sock\<close> and
  the invalid node endpoint \<open>tcp://\<close>, the controller's socket is bound, the process exits
  with status 1, no cleanup has run and the socket file is still there. With a valid node
  endpoint the same run ends with status 0 after both cleanups, the last deferred first.
  For every run, \<open>combined_run_facts\<close> and \<open>split_run_facts\<close> count the cleanups: one for each
  bound address when \<open>main\<close> returns, none otherwise.
\<close>

theorem cleanup_skipped_on_startup_failure:
  "fst (run sim_platform (flag_defaults ''mock'') scenario_failure [SIGTERM] empty_world) =
     Exit 1 \<and>
   bound (trace (snd (run sim_platform (flag_defaults ''mock'') scenario_failure [SIGTERM]
                        empty_world))) = [(''unix'', ''/tmp/c.sock'')] \<and>
   cleanups (trace (snd (run sim_platform (flag_defaults ''mock'') scenario_failure [SIGTERM]
                           empty_world))) = [] \<and>
   files (world (snd (run sim_platform (flag_defaults ''mock'') scenario_failure [SIGTERM]
                        empty_world))) = [''/tmp/c.sock''] \<and>
   fst (run sim_platform (flag_defaults ''mock'')
          (scenario_failure(''CSI_ENDPOINT'' \<mapsto> ''tcp://127.0.0.1:9000'')) [SIGTERM]
          empty_world) = Exit 0 \<and>
   cleanups (trace (snd (run sim_platform (flag_defaults ''mock'')
          (scenario_failure(''CSI_ENDPOINT'' \<mapsto> ''tcp://127.0.0.1:9000'')) [SIGTERM]
          empty_world))) = [NoCleanup, RemoveFile ''/tmp/c.sock'']"
  by code_simp

text \<open>
  Claim C10. Let one of SIGTERM, SIGHUP, SIGINT and SIGQUIT be sent to the process, after
  signals that are not registered, and let the run not end in a startup failure. Then the
  signal is received, every member that was constructed (one in the combined topology, two
  in the split one) was started before it and is stopped after it, none is stopped before
  it, and the process exits with status 0.
\<close>

theorem signal_stops_every_member:
  assumes sg: "sg \<in> {SIGTERM, SIGHUP, SIGINT, SIGQUIT}"
    and ig: "set ignored \<inter> {SIGTERM, SIGHUP, SIGINT, SIGQUIT} = {}"
    and run: "run P fl env (ignored @ sg # rest) w = (out, \<sigma>')"
    and ok: "out \<noteq> Exit 1"
  shows "out = Exit 0 \<and> received (trace \<sigma>') = [sg] \<and>
         map fst (started (before_signal (trace \<sigma>'))) = built (trace \<sigma>') \<and>
         stopped (after_signal (trace \<sigma>')) = built (trace \<sigma>') \<and>
         stopped (before_signal (trace \<sigma>')) = [] \<and>
         started (after_signal (trace \<sigma>')) = [] \<and>
         length (built (trace \<sigma>')) =
           (if Getenv env ''CSI_ENDPOINT'' = controller_endpoint env then 1 else 2)"
proof -
  from ig have "\<forall>x\<in>set ignored. x \<notin> set sigs" by (auto simp: sigs_def)
  with sg have f: "find (\<lambda>sg. sg \<in> set sigs) (ignored @ sg # rest) = Some sg"
    by (induction ignored) (auto simp: sigs_def)
  show ?thesis
  proof (cases "Getenv env ''CSI_ENDPOINT'' = controller_endpoint env")
    case True
    from combined_run_facts [OF True run, of sg] f ok
    have "out = Exit 0 \<and> received (trace \<sigma>') = [sg] \<and>
         map fst (started (before_signal (trace \<sigma>'))) = built (trace \<sigma>') \<and>
         stopped (after_signal (trace \<sigma>')) = built (trace \<sigma>') \<and>
         stopped (before_signal (trace \<sigma>')) = [] \<and>
         started (after_signal (trace \<sigma>')) = []" by simp
    moreover from combined_run_facts [OF True run, of sg]
    have "length (map roles (built (trace \<sigma>'))) = 1" by simp
    ultimately show ?thesis using True by simp
  next
    case False
    from split_run_facts [OF False run, of sg] f ok
    have "out = Exit 0 \<and> received (trace \<sigma>') = [sg] \<and>
         map fst (started (before_signal (trace \<sigma>'))) = built (trace \<sigma>') \<and>
         stopped (after_signal (trace \<sigma>')) = built (trace \<sigma>') \<and>
         stopped (before_signal (trace \<sigma>')) = [] \<and>
         started (after_signal (trace \<sigma>')) = []" by simp
    moreover from split_run_facts [OF False run, of sg]
    have "length (map roles (built (trace \<sigma>'))) = 2" by simp
    ultimately show ?thesis using False by simp
  qed
qed

theorem signal_stops_every_member_witness:
  "SIGHUP \<in> {SIGTERM, SIGHUP, SIGINT, SIGQUIT} \<and>
   set [SIGUSR1] \<inter> {SIGTERM, SIGHUP, SIGINT, SIGQUIT} = {} \<and>
   fst (run sim_platform (flag_defaults ''mock'') scenario_split ([SIGUSR1] @ SIGHUP # [SIGTERM])
          empty_world) = Exit 0 \<and>
   received (trace (snd (run sim_platform (flag_defaults ''mock'') scenario_split
     ([SIGUSR1] @ SIGHUP # [SIGTERM]) empty_world))) = [SIGHUP] \<and>
   length (stopped (after_signal (trace (snd (run sim_platform (flag_defaults ''mock'')
     scenario_split ([SIGUSR1] @ SIGHUP # [SIGTERM]) empty_world))))) = 2"
proof -
  let ?r = "run sim_platform (flag_defaults ''mock'') scenario_split
              ([SIGUSR1] @ SIGHUP # [SIGTERM]) empty_world"
  have h1: "SIGHUP \<in> {SIGTERM, SIGHUP, SIGINT, SIGQUIT}" by simp
  have h2: "set [SIGUSR1] \<inter> {SIGTERM, SIGHUP, SIGINT, SIGQUIT} = {}" by simp
  have r: "?r = (fst ?r, snd ?r)" by simp
  have e: "fst ?r = Exit 0" by code_simp
  then have h4: "fst ?r \<noteq> Exit 1" by simp
  have ne: "Getenv scenario_split ''CSI_ENDPOINT'' \<noteq> controller_endpoint scenario_split"
    by code_simp
  from signal_stops_every_member [OF h1 h2 r h4] ne
  have "received (trace (snd ?r)) = [SIGHUP] \<and>
        length (stopped (after_signal (trace (snd ?r)))) = 2"
    by simp
  with h1 h2 e show ?thesis by (intro conjI) (elim conjE, assumption)+
qed

lemma branch_extends:
  assumes "(if c then main_combined P env arrivals s ep \<sigma>
            else main_split P env arrivals s ep cep \<sigma>) = (out, \<sigma>')"
  shows "\<exists>more. trace \<sigma>' = trace \<sigma> @ more \<and> services more = []"
proof (cases c)
  case True
  with assms have "main_combined P env arrivals s ep \<sigma> = (out, \<sigma>')" by simp
  then show ?thesis
    by (cases rule: main_combined_cases) simp_all
next
  case False
  with assms have "main_split P env arrivals s ep cep \<sigma> = (out, \<sigma>')" by simp
  then show ?thesis
    by (cases rule: main_split_cases) simp_all
qed

section \<open>The hooks file\<close>

text \<open>
  When the file cannot be opened, or cannot be read, or its bytes do not parse,
  \<open>parseHooksFile\<close> returns that error; a file that was opened is closed.
\<close>

lemma parseHooksFile_open_fails:
  assumes "os_Open P file (world \<sigma>) = (Some err, w1)"
  shows "parseHooksFile P file \<sigma> =
           (Inl err, \<lparr>trace = trace \<sigma> @ [EvOpen file (Some err)], world = w1\<rparr>)"
  using assms by (simp add: parseHooksFile_def call_Open_def)

lemma parseHooksFile_read_fails:
  assumes "os_Open P file (world \<sigma>) = (None, w1)"
    and "ioutil_ReadAll P file w1 = (Inl err, w2)"
  shows "parseHooksFile P file \<sigma> =
           (Inl err,
            \<lparr>trace = trace \<sigma> @ [EvOpen file None, EvReadAll file (Inl err), EvClose file],
               world = file_Close P file w2\<rparr>)"
  using assms by (simp add: parseHooksFile_def call_Open_def call_ReadAll_def call_Close_def)

lemma parseHooksFile_parse_fails:
  assumes "os_Open P file (world \<sigma>) = (None, w1)"
    and "ioutil_ReadAll P file w1 = (Inr bytes, w2)"
    and "yaml_UnmarshalStrict P bytes = Inl err"
  shows "parseHooksFile P file \<sigma> =
           (Inl err,
            \<lparr>trace = trace \<sigma> @ [EvOpen file None, EvReadAll file (Inr bytes), EvClose file],
               world = file_Close P file w2\<rparr>)"
  using assms by (simp add: parseHooksFile_def call_Open_def call_ReadAll_def call_Close_def)

text \<open>
  Claim C9. Let the hooks-file option be set, and let the file fail to open with \<open>err\<close>, or
  open and fail to be read with \<open>err\<close>, or be read and its bytes fail to parse with \<open>err\<close>.
  Then \<open>parseHooksFile\<close> returns \<open>err\<close>, and the run is the run without the option, continued
  from the state after the failed attempt and its log line: the failure is logged, the
  service is constructed with \<open>ExecHooks\<close> unset, and nothing else changes.
\<close>

theorem hooks_failure_not_fatal:
  fixes P :: "('h, 'w) platform"
  assumes opt: "hooks_file fl \<noteq> []"
    and op: "os_Open P (hooks_file fl) w = (opened, w1)"
    and rd: "ioutil_ReadAll P (hooks_file fl) w1 = (content, w2)"
    and bad: "opened = Some err \<or>
              opened = None \<and> content = Inl err \<or>
              opened = None \<and>
                (\<exists>bytes. content = Inr bytes \<and> yaml_UnmarshalStrict P bytes = Inl err)"
  shows "fst (parseHooksFile P (hooks_file fl) \<lparr>trace = [], world = w\<rparr>) = Inl err \<and>
         run P fl env arrivals w =
           main P (fl\<lparr>hooks_file := []\<rparr>) env arrivals
             (emit (EvErrorf (FailedToLoadHooks (hooks_file fl) err))
                (snd (parseHooksFile P (hooks_file fl) \<lparr>trace = [], world = w\<rparr>))) \<and>
         EvErrorf (FailedToLoadHooks (hooks_file fl) err)
           \<in> set (trace (snd (run P fl env arrivals w))) \<and>
         map ExecHooks (services (trace (snd (run P fl env arrivals w)))) = [None]"
proof -
  let ?\<sigma>0 = "\<lparr>trace = [], world = w\<rparr> :: ('h, 'w) state"
  have op': "os_Open P (hooks_file fl) (world ?\<sigma>0) = (opened, w1)"
    using op by simp
  from bad have "\<exists>\<sigma>1. parseHooksFile P (hooks_file fl) ?\<sigma>0 = (Inl err, \<sigma>1)"
  proof (elim disjE conjE exE)
    assume "opened = Some err"
    with parseHooksFile_open_fails [of P "hooks_file fl" ?\<sigma>0 err w1] op'
    show ?thesis by blast
  next
    assume "opened = None" "content = Inl err"
    with parseHooksFile_read_fails [of P "hooks_file fl" ?\<sigma>0 w1 err w2] op' rd
    show ?thesis by blast
  next
    fix bytes
    assume "opened = None" "content = Inr bytes" "yaml_UnmarshalStrict P bytes = Inl err"
    with parseHooksFile_parse_fails [of P "hooks_file fl" ?\<sigma>0 w1 bytes w2 err] op' rd
    show ?thesis by blast
  qed
  then obtain \<sigma>1 where failed: "parseHooksFile P (hooks_file fl) ?\<sigma>0 = (Inl err, \<sigma>1)"
    by blast
  let ?\<sigma> = "emit (EvErrorf (FailedToLoadHooks (hooks_file fl) err)) \<sigma>1"
  let ?fl = "fl\<lparr>hooks_file := []\<rparr>"
  have fp: "(flag_Parse ?fl :: 'h Config) = flag_Parse fl"
    by (simp add: flag_Parse_def)
  have eq: "run P fl env arrivals w = main P ?fl env arrivals ?\<sigma>"
    using opt failed by (simp add: run_def main_def load_hooks_def fp)
  obtain out \<sigma>' where m: "main P ?fl env arrivals ?\<sigma> = (out, \<sigma>')" by force
  from parseHooksFile_trace [OF failed] obtain hs1 where
    h1: "trace \<sigma>1 = hs1" "list_all is_hook_event hs1" by auto
  from m obtain hs config \<sigma>2 where
    hs: "list_all is_hook_event hs" and
    t2: "trace \<sigma>2 = trace ?\<sigma> @ hs @ [EvNewService config]" and
    cf: "config = flag_Parse ?fl" and
    br: "(if Getenv env ''CSI_ENDPOINT'' = controller_endpoint env
      then main_combined P env arrivals (service_New config) (Getenv env ''CSI_ENDPOINT'') \<sigma>2
      else main_split P env arrivals (service_New config) (Getenv env ''CSI_ENDPOINT'')
             (controller_endpoint env) \<sigma>2) = (out, \<sigma>')"
    by (rule main_steps) simp
  from branch_extends [OF br] obtain more where
    more: "trace \<sigma>' = trace \<sigma>2 @ more" "services more = []" by blast
  have t: "trace \<sigma>' = hs1 @ EvErrorf (FailedToLoadHooks (hooks_file fl) err) # hs @
             EvNewService config # more"
    using more t2 h1 by (simp add: emit_def)
  have "ExecHooks config = None" using cf by (simp add: flag_Parse_def)
  with t h1 hs more have
    "EvErrorf (FailedToLoadHooks (hooks_file fl) err) \<in> set (trace \<sigma>') \<and>
     map ExecHooks (services (trace \<sigma>')) = [None]" by simp
  with eq m failed show ?thesis by simp
qed

theorem hooks_failure_not_fatal_witness:
  "hooks_file hooks_flags \<noteq> [] \<and>
   os_Open sim_platform (hooks_file hooks_flags) hooks_world = (None, hooks_world) \<and>
   ioutil_ReadAll sim_platform (hooks_file hooks_flags) hooks_world =
     (Inr ''{ not a hooks document'', hooks_world) \<and>
   yaml_UnmarshalStrict sim_platform ''{ not a hooks document'' =
     Inl (SysError ''yaml: unmarshal errors'') \<and>
   fst (run sim_platform hooks_flags scenario_combined [SIGTERM] hooks_world) = Exit 0 \<and>
   EvErrorf (FailedToLoadHooks ''/etc/hooks.yaml'' (SysError ''yaml: unmarshal errors''))
     \<in> set (trace (snd (run sim_platform hooks_flags scenario_combined [SIGTERM] hooks_world))) \<and>
   map ExecHooks (services
     (trace (snd (run sim_platform hooks_flags scenario_combined [SIGTERM] hooks_world)))) =
     [None] \<and>
   os_Open sim_platform (hooks_file hooks_flags) empty_world = (Some ErrNotExist, empty_world) \<and>
   fst (run sim_platform hooks_flags scenario_combined [SIGTERM] empty_world) = Exit 0 \<and>
   EvErrorf (FailedToLoadHooks ''/etc/hooks.yaml'' ErrNotExist)
     \<in> set (trace (snd (run sim_platform hooks_flags scenario_combined [SIGTERM] empty_world))) \<and>
   map ExecHooks (services
     (trace (snd (run sim_platform hooks_flags scenario_combined [SIGTERM] empty_world)))) =
     [None]"
proof -
  let ?r = "run sim_platform hooks_flags scenario_combined [SIGTERM] hooks_world"
  let ?q = "run sim_platform hooks_flags scenario_combined [SIGTERM] empty_world"
  let ?doc = "''{ not a hooks document''"
  let ?e = "SysError ''yaml: unmarshal errors''"
  have h1: "hooks_file hooks_flags \<noteq> []" by code_simp
  have n: "hooks_file hooks_flags = ''/etc/hooks.yaml''" by code_simp
  have o: "os_Open sim_platform (hooks_file hooks_flags) hooks_world = (None, hooks_world)"
    by code_simp
  have rd: "ioutil_ReadAll sim_platform (hooks_file hooks_flags) hooks_world =
              (Inr ?doc, hooks_world)"
    by code_simp
  have y: "yaml_UnmarshalStrict sim_platform ?doc = Inl ?e" by code_simp
  have bad: "(None :: error option) = Some ?e \<or>
             (None :: error option) = None \<and> (Inr ?doc :: error + string) = Inl ?e \<or>
             (None :: error option) = None \<and>
               (\<exists>bytes. (Inr ?doc :: error + string) = Inr bytes \<and>
                  yaml_UnmarshalStrict sim_platform bytes = Inl ?e)"
    using y by blast
  have o': "os_Open sim_platform (hooks_file hooks_flags) empty_world =
              (Some ErrNotExist, empty_world)"
    by code_simp
  obtain c w2 where rd': "ioutil_ReadAll sim_platform (hooks_file hooks_flags) empty_world =
      (c, w2)" by force
  have bad': "Some ErrNotExist = Some ErrNotExist \<or>
              Some ErrNotExist = None \<and> c = Inl ErrNotExist \<or>
              Some ErrNotExist = None \<and>
                (\<exists>bytes. c = Inr bytes \<and>
                   yaml_UnmarshalStrict sim_platform bytes = Inl ErrNotExist)"
    by simp
  have e: "fst ?r = Exit 0" by code_simp
  have e': "fst ?q = Exit 0" by code_simp
  note t = hooks_failure_not_fatal [OF h1 o rd bad, of scenario_combined "[SIGTERM]"]
  note t' = hooks_failure_not_fatal [OF h1 o' rd' bad', of scenario_combined "[SIGTERM]"]
  from t have c: "EvErrorf (FailedToLoadHooks (hooks_file hooks_flags) ?e)
        \<in> set (trace (snd ?r)) \<and>
      map ExecHooks (services (trace (snd ?r))) = [None]"
    by (elim conjE) (intro conjI)
  from t' have c': "EvErrorf (FailedToLoadHooks (hooks_file hooks_flags) ErrNotExist)
        \<in> set (trace (snd ?q)) \<and>
      map ExecHooks (services (trace (snd ?q))) = [None]"
    by (elim conjE) (intro conjI)
  from h1 o rd y e c [unfolded n] o' e' c' [unfolded n] show ?thesis
    by (intro conjI) (elim conjE, assumption)+
qed

end
